theory Spec2Isabelle
  imports Main "HOL-Library.Word"
begin

section \<open>Python values and exceptions\<close>

text \<open>
  The module \<^verbatim>\<open>tika/unpack.py\<close> decodes the tar archive that a Tika server answers with.
  A Python 3 \<^verbatim>\<open>str\<close> is a sequence of Unicode code points, a \<^verbatim>\<open>bytes\<close> object a sequence
  of octets. An exception that leaves a function is the \<open>Inl\<close> branch of its result.
\<close>

type_synonym pystr = "nat list"
type_synonym byte = "8 word"
type_synonym bytes = "byte list"

datatype exn =
    AssertionError
  | KeyError
  | UnicodeDecodeError
  | UnicodeEncodeError
  | ReadError
  | CsvError
  | OSError

text \<open>A Python string literal, written with the characters of its ASCII text.\<close>

definition py :: "string \<Rightarrow> pystr" where
  "py s = map of_char s"

text \<open>Sequencing of two steps: the exception of the first step skips the second.\<close>

definition and_then :: "exn + 'a \<Rightarrow> ('a \<Rightarrow> exn + 'b) \<Rightarrow> exn + 'b" where
  "and_then r f = (case r of Inl e \<Rightarrow> Inl e | Inr x \<Rightarrow> f x)"

text \<open>Appending one decoded character to the rest of a decoder's output.\<close>

definition emit :: "nat \<Rightarrow> exn + pystr \<Rightarrow> exn + pystr" where
  "emit ch r = (case r of Inl e \<Rightarrow> Inl e | Inr s \<Rightarrow> Inr (ch # s))"

text \<open>The strings of Python 3: every element is a code point up to U+10FFFF.\<close>

definition is_str :: "pystr \<Rightarrow> bool" where
  "is_str s = list_all (\<lambda>c. c < 0x110000) s"

section \<open>The codecs that the module calls\<close>

text \<open>
  \<^verbatim>\<open>_csv_encode\<close> and \<^verbatim>\<open>_csv_decode\<close> are compositions of standard codecs. The codecs
  are those of CPython: \<^verbatim>\<open>unicode-escape\<close> follows \<^verbatim>\<open>PyUnicode_AsUnicodeEscapeString\<close> and
  \<^verbatim>\<open>_PyUnicode_DecodeUnicodeEscapeInternal\<close> of \<^verbatim>\<open>Objects/unicodeobject.c\<close>, with the
  default error handler \<^verbatim>\<open>strict\<close>.
\<close>

subsection \<open>ascii and latin-1\<close>

definition ascii_decode :: "bytes \<Rightarrow> exn + pystr" where
  "ascii_decode b =
     (if list_all (\<lambda>c. unat c < 128) b then Inr (map unat b) else Inl UnicodeDecodeError)"

definition ascii_encode :: "pystr \<Rightarrow> exn + bytes" where
  "ascii_encode s =
     (if list_all (\<lambda>c. c < 128) s then Inr (map of_nat s) else Inl UnicodeEncodeError)"

definition latin1_decode :: "bytes \<Rightarrow> pystr" where
  "latin1_decode b = map unat b"

definition latin1_encode :: "pystr \<Rightarrow> exn + bytes" where
  "latin1_encode s =
     (if list_all (\<lambda>c. c < 256) s then Inr (map of_nat s) else Inl UnicodeEncodeError)"

subsection \<open>unicode-escape, encoding\<close>

text \<open>\<^verbatim>\<open>Py_hexdigits\<close> is \<^verbatim>\<open>"0123456789abcdef"\<close>.\<close>

definition hexdigit :: "nat \<Rightarrow> nat" where
  "hexdigit d = (if d < 10 then 48 + d else 87 + d)"

text \<open>
  The escape of one code point, as the ASCII codes written: printable ASCII is copied, the
  backslash is doubled, tab, line feed and carriage return get their letter, the other
  code points below 256 are \<^verbatim>\<open>\xHH\<close>, those below 65536 are \<^verbatim>\<open>\uHHHH\<close>, the rest are
  \<^verbatim>\<open>\U00HHHHHH\<close>.
\<close>

definition escape_char :: "nat \<Rightarrow> nat list" where
  "escape_char ch =
     (if ch < 0x100 then
        (if 0x20 \<le> ch \<and> ch < 127 then (if ch \<noteq> 0x5C then [ch] else [0x5C, 0x5C])
         else if ch = 9 then [0x5C, 0x74]
         else if ch = 10 then [0x5C, 0x6E]
         else if ch = 13 then [0x5C, 0x72]
         else [0x5C, 0x78, hexdigit ((ch div 16) mod 16), hexdigit (ch mod 16)])
      else if ch < 0x10000 then
        [0x5C, 0x75, hexdigit ((ch div 4096) mod 16), hexdigit ((ch div 256) mod 16),
         hexdigit ((ch div 16) mod 16), hexdigit (ch mod 16)]
      else
        [0x5C, 0x55, 0x30, 0x30,
         hexdigit ((ch div 1048576) mod 16), hexdigit ((ch div 65536) mod 16),
         hexdigit ((ch div 4096) mod 16), hexdigit ((ch div 256) mod 16),
         hexdigit ((ch div 16) mod 16), hexdigit (ch mod 16)])"

definition escape_units :: "pystr \<Rightarrow> nat list" where
  "escape_units s = concat (map escape_char s)"

definition unicode_escape_encode :: "pystr \<Rightarrow> bytes" where
  "unicode_escape_encode s = map of_nat (escape_units s)"

subsection \<open>unicode-escape, decoding\<close>

definition hexval :: "nat \<Rightarrow> nat option" where
  "hexval c =
     (if 48 \<le> c \<and> c \<le> 57 then Some (c - 48)
      else if 97 \<le> c \<and> c \<le> 102 then Some (c - 87)
      else if 65 \<le> c \<and> c \<le> 70 then Some (c - 55)
      else None)"

text \<open>
  The loop at the label \<^verbatim>\<open>hexescape\<close>: \<open>count\<close> hexadecimal digits, most significant
  first; \<open>None\<close> when the input ends early or a character is not a digit.
\<close>

fun hexescape :: "nat \<Rightarrow> nat list \<Rightarrow> nat \<Rightarrow> nat option" where
  "hexescape 0 s ch = Some ch"
| "hexescape (Suc n) [] ch = None"
| "hexescape (Suc n) (c # s) ch =
     (case hexval c of None \<Rightarrow> None | Some d \<Rightarrow> hexescape n s (ch * 16 + d))"

definition is_octal :: "nat \<Rightarrow> bool" where
  "is_octal c = (48 \<le> c \<and> c \<le> 55)"

text \<open>An octal escape has one to three digits: how many follow the first, and its value.\<close>

definition octal_more :: "nat list \<Rightarrow> nat" where
  "octal_more s =
     (case s of
        [] \<Rightarrow> 0
      | a # t \<Rightarrow>
          if is_octal a then (case t of [] \<Rightarrow> 1 | b # u \<Rightarrow> if is_octal b then 2 else 1)
          else 0)"

definition octal_value :: "nat \<Rightarrow> nat list \<Rightarrow> nat" where
  "octal_value c s =
     (if octal_more s = 0 then c - 48
      else if octal_more s = 1 then (c - 48) * 8 + (s ! 0 - 48)
      else ((c - 48) * 8 + (s ! 0 - 48)) * 8 + (s ! 1 - 48))"

text \<open>
  The decoder proper, on the values of the bytes. \<open>names\<close> is the Unicode character
  database behind \<^verbatim>\<open>\N{...}\<close>, a table of the interpreter. Characters other than the
  backslash stand for themselves; an unknown escape keeps its backslash; a truncated or
  malformed escape and a value above U+10FFFF raise.
\<close>

fun unescape_units :: "(nat list \<Rightarrow> nat option) \<Rightarrow> nat list \<Rightarrow> exn + pystr" where
  "unescape_units names [] = Inr []"
| "unescape_units names (c # s) =
     (if c \<noteq> 0x5C then emit c (unescape_units names s)
      else
        (case s of
           [] \<Rightarrow> Inl UnicodeDecodeError
         | e # r \<Rightarrow>
             if e = 0x0A then unescape_units names r
             else if e = 0x5C then emit 0x5C (unescape_units names r)
             else if e = 0x27 then emit 0x27 (unescape_units names r)
             else if e = 0x22 then emit 0x22 (unescape_units names r)
             else if e = 0x62 then emit 8 (unescape_units names r)
             else if e = 0x66 then emit 12 (unescape_units names r)
             else if e = 0x74 then emit 9 (unescape_units names r)
             else if e = 0x6E then emit 10 (unescape_units names r)
             else if e = 0x72 then emit 13 (unescape_units names r)
             else if e = 0x76 then emit 11 (unescape_units names r)
             else if e = 0x61 then emit 7 (unescape_units names r)
             else if is_octal e then
               emit (octal_value e r) (unescape_units names (drop (octal_more r) r))
             else if e = 0x78 \<or> e = 0x75 \<or> e = 0x55 then
               (let count = (if e = 0x78 then 2 else if e = 0x75 then 4 else 8) in
                case hexescape count r 0 of
                  None \<Rightarrow> Inl UnicodeDecodeError
                | Some ch \<Rightarrow>
                    if ch > 0x10FFFF then Inl UnicodeDecodeError
                    else emit ch (unescape_units names (drop count r)))
             else if e = 0x4E then
               (case r of
                  [] \<Rightarrow> Inl UnicodeDecodeError
                | b # t \<Rightarrow>
                    if b \<noteq> 0x7B then Inl UnicodeDecodeError
                    else
                      (let name = takeWhile (\<lambda>x. x \<noteq> 0x7D) t in
                       if length name = length t \<or> name = [] then Inl UnicodeDecodeError
                       else
                         (case names name of
                            None \<Rightarrow> Inl UnicodeDecodeError
                          | Some ch \<Rightarrow>
                              emit ch (unescape_units names (drop (Suc (length name)) t)))))
             else emit 0x5C (emit e (unescape_units names r))))"

definition unicode_escape_decode :: "(nat list \<Rightarrow> nat option) \<Rightarrow> bytes \<Rightarrow> exn + pystr" where
  "unicode_escape_decode names b = unescape_units names (map unat b)"

subsection \<open>utf-8, decoding\<close>

text \<open>
  The strict decoder of RFC 3629: shortest forms only, no surrogates, nothing above
  U+10FFFF; any other byte sequence raises.
\<close>

definition is_cont :: "nat \<Rightarrow> bool" where
  "is_cont c = (0x80 \<le> c \<and> c < 0xC0)"

fun utf8_units :: "nat list \<Rightarrow> exn + pystr" where
  "utf8_units [] = Inr []"
| "utf8_units (b # s) =
     (if b < 0x80 then emit b (utf8_units s)
      else if 0xC2 \<le> b \<and> b < 0xE0 then
        (case s of
           c1 # r \<Rightarrow>
             if is_cont c1 then emit ((b - 0xC0) * 64 + (c1 - 0x80)) (utf8_units r)
             else Inl UnicodeDecodeError
         | _ \<Rightarrow> Inl UnicodeDecodeError)
      else if 0xE0 \<le> b \<and> b < 0xF0 then
        (case s of
           c1 # c2 # r \<Rightarrow>
             if is_cont c1 \<and> is_cont c2
                \<and> (if b = 0xE0 then 0xA0 \<le> c1 else True)
                \<and> (if b = 0xED then c1 < 0xA0 else True)
             then emit (((b - 0xE0) * 64 + (c1 - 0x80)) * 64 + (c2 - 0x80)) (utf8_units r)
             else Inl UnicodeDecodeError
         | _ \<Rightarrow> Inl UnicodeDecodeError)
      else if 0xF0 \<le> b \<and> b < 0xF5 then
        (case s of
           c1 # c2 # c3 # r \<Rightarrow>
             if is_cont c1 \<and> is_cont c2 \<and> is_cont c3
                \<and> (if b = 0xF0 then 0x90 \<le> c1 else True)
                \<and> (if b = 0xF4 then c1 < 0x90 else True)
             then emit ((((b - 0xF0) * 64 + (c1 - 0x80)) * 64 + (c2 - 0x80)) * 64 + (c3 - 0x80))
                    (utf8_units r)
             else Inl UnicodeDecodeError
         | _ \<Rightarrow> Inl UnicodeDecodeError)
      else Inl UnicodeDecodeError)"

definition utf8_decode :: "bytes \<Rightarrow> exn + pystr" where
  "utf8_decode b = utf8_units (map unat b)"

subsection \<open>Reading text through \<^verbatim>\<open>TextIOWrapper\<close>\<close>

text \<open>
  \<^verbatim>\<open>io.TextIOWrapper\<close> is built here without a \<^verbatim>\<open>newline\<close> argument. The library's
  documentation of that default: on input, universal newlines mode is enabled; lines can
  end in \<^verbatim>\<open>'\n'\<close>, \<^verbatim>\<open>'\r'\<close> or \<^verbatim>\<open>'\r\n'\<close>, and these are translated into \<^verbatim>\<open>'\n'\<close> before
  being returned to the caller.
\<close>

fun translate_newlines :: "pystr \<Rightarrow> pystr" where
  "translate_newlines [] = []"
| "translate_newlines [c] = (if c = 13 then [10] else [c])"
| "translate_newlines (c # d # s) =
     (if c = 13 \<and> d = 10 then 10 # translate_newlines s
      else if c = 13 then 10 # translate_newlines (d # s)
      else c # translate_newlines (d # s))"

section \<open>Escaping around the CSV reader\<close>

text \<open>
  The CSV reader of Python rejects null characters, so each line is escaped before it is
  parsed and each cell is unescaped afterwards. The module picks the pair of lambdas at
  import, by \<^verbatim>\<open>version_info.major >= 3\<close>:
  \<^verbatim>\<open>
  _csv_encode = lambda x: x.encode('unicode-escape').decode('ascii')
  _csv_decode = lambda x: x.encode('ascii').decode('unicode-escape')
  \<close>
  on Python 3, where the strings are \<^verbatim>\<open>str\<close>, and
  \<^verbatim>\<open>
  _csv_encode = lambda x: x.decode('latin-1').encode('unicode-escape')
  _csv_decode = lambda x: x.decode('unicode-escape').encode('latin-1')
  \<close>
  on Python 2, where they are byte strings. Both pairs are embedded; the decoder below
  is the module under Python 3.
\<close>

definition csv_encode :: "pystr \<Rightarrow> exn + pystr" where
  "csv_encode x = ascii_decode (unicode_escape_encode x)"

definition csv_decode :: "(nat list \<Rightarrow> nat option) \<Rightarrow> pystr \<Rightarrow> exn + pystr" where
  "csv_decode names x = and_then (ascii_encode x) (unicode_escape_decode names)"

definition csv_encode_py2 :: "bytes \<Rightarrow> bytes" where
  "csv_encode_py2 x = unicode_escape_encode (latin1_decode x)"

definition csv_decode_py2 :: "(nat list \<Rightarrow> nat option) \<Rightarrow> bytes \<Rightarrow> exn + bytes" where
  "csv_decode_py2 names x = and_then (unicode_escape_decode names x) latin1_encode"

text \<open>
  A generator is the list of what it yields, in order; an element \<open>Inl e\<close> is the
  point where it raises \<open>e\<close>, and a consumer never looks behind that point.
\<close>

type_synonym 'a gen = "(exn + 'a) list"

definition escape_strs :: "pystr gen \<Rightarrow> pystr gen" where
  "escape_strs raw_data = map (\<lambda>line. and_then line csv_encode) raw_data"

text \<open>The list comprehension \<^verbatim>\<open>[_csv_decode(c) for c in row]\<close>.\<close>

fun decode_cells :: "(nat list \<Rightarrow> nat option) \<Rightarrow> pystr list \<Rightarrow> exn + pystr list" where
  "decode_cells names [] = Inr []"
| "decode_cells names (c # row) =
     and_then (csv_decode names c)
       (\<lambda>d. and_then (decode_cells names row) (\<lambda>ds. Inr (d # ds)))"

text \<open>
  \<^verbatim>\<open>_wrapped_csv\<close>, with the reader of the standard library as a parameter: it turns the
  generator of lines into the generator of rows.
\<close>

definition wrapped_csv ::
  "(pystr gen \<Rightarrow> pystr list gen) \<Rightarrow> (nat list \<Rightarrow> nat option) \<Rightarrow> pystr gen \<Rightarrow> pystr list gen"
where
  "wrapped_csv reader names csv_data =
     map (\<lambda>row. and_then row (decode_cells names)) (reader (escape_strs csv_data))"

section \<open>The archive and the standard library\<close>

text \<open>
  A member of a tar archive, as \<^verbatim>\<open>tarfile.TarInfo\<close> shows it to the module: its name and
  its type. \<^verbatim>\<open>issym\<close> and \<^verbatim>\<open>isfile\<close> are the methods of that name; \<^verbatim>\<open>isfile\<close> holds for
  the types of \<^verbatim>\<open>tarfile.REGULAR_TYPES\<close>.
\<close>

datatype tar_type =
    REGTYPE | AREGTYPE | LNKTYPE | SYMTYPE | CHRTYPE | BLKTYPE | DIRTYPE | FIFOTYPE
  | CONTTYPE | GNUTYPE_SPARSE | OTHERTYPE

record TarInfo =
  name :: pystr
  type :: tar_type

definition issym :: "TarInfo \<Rightarrow> bool" where
  "issym m = (type m = SYMTYPE)"

definition isfile :: "TarInfo \<Rightarrow> bool" where
  "isfile m = (type m = REGTYPE \<or> type m = AREGTYPE \<or> type m = CONTTYPE \<or> type m = GNUTYPE_SPARSE)"

text \<open>
  What the module calls in the standard library and does not define itself, taken as
  parameters; \<open>'tf\<close> is the open \<^verbatim>\<open>TarFile\<close>. Each call may raise.
  \<^item> \<open>tarfile_open b\<close>: \<^verbatim>\<open>tarfile.open(fileobj=BytesIO(b))\<close>;
  \<^item> \<open>getnames\<close>, \<open>getmember\<close>: the methods of that name;
  \<^item> \<open>extractfile_read tf m\<close>: \<^verbatim>\<open>tf.extractfile(m).read()\<close>, the bytes of the member;
  \<^item> \<open>text_lines tf m\<close>: the lines that iterating
    \<^verbatim>\<open>_text_wrapper(tf.extractfile(m))\<close> yields, decoded with the encoding of the locale;
  \<^item> \<open>csv_reader\<close>: \<^verbatim>\<open>csv.reader\<close> with the dialect \<^verbatim>\<open>excel\<close>;
  \<^item> \<open>unicode_names\<close>: the character names behind \<^verbatim>\<open>\N{...}\<close>.
\<close>

record 'tf pylib =
  tarfile_open :: "bytes \<Rightarrow> exn + 'tf"
  getnames :: "'tf \<Rightarrow> exn + pystr list"
  getmember :: "'tf \<Rightarrow> pystr \<Rightarrow> exn + TarInfo"
  extractfile_read :: "'tf \<Rightarrow> TarInfo \<Rightarrow> exn + bytes"
  text_lines :: "'tf \<Rightarrow> TarInfo \<Rightarrow> pystr gen"
  csv_reader :: "pystr gen \<Rightarrow> pystr list gen"
  unicode_names :: "nat list \<Rightarrow> nat option"

text \<open>
  What a call does to the archive reader is kept as a trace: the reader was opened, the
  content of a member was extracted, the reader was closed. A computation returns its
  value or exception together with the events it caused.
\<close>

datatype tar_event = TarOpen | TarExtract TarInfo | TarClose

type_synonym 'a traced = "(exn + 'a) \<times> tar_event list"

definition done_with :: "'a \<Rightarrow> 'a traced" where
  "done_with x = (Inr x, [])"

definition lift :: "exn + 'a \<Rightarrow> 'a traced" where
  "lift r = (r, [])"

definition logged :: "tar_event \<Rightarrow> exn + 'a \<Rightarrow> 'a traced" where
  "logged ev r = (r, [ev])"

text \<open>Opening the archive: there is a reader from then on when the call returns one.\<close>

definition acquired :: "exn + 'a \<Rightarrow> 'a traced" where
  "acquired r = (case r of Inl e \<Rightarrow> (Inl e, []) | Inr tf \<Rightarrow> (Inr tf, [TarOpen]))"

definition bind_traced :: "'a traced \<Rightarrow> ('a \<Rightarrow> 'b traced) \<Rightarrow> 'b traced" where
  "bind_traced m f =
     (case m of
        (Inl e, evs) \<Rightarrow> (Inl e, evs)
      | (Inr x, evs) \<Rightarrow> (case f x of (r, evs') \<Rightarrow> (r, evs @ evs')))"

text \<open>The readers that a trace leaves open: those opened and not closed.\<close>

definition open_readers :: "tar_event list \<Rightarrow> int" where
  "open_readers evs = int (count_list evs TarOpen) - int (count_list evs TarClose)"

text \<open>An event that extracts the content of a regular file that is no symbolic link.\<close>

definition extracts_regular :: "tar_event \<Rightarrow> bool" where
  "extracts_regular ev = (case ev of TarExtract m \<Rightarrow> \<not> issym m \<and> isfile m | _ \<Rightarrow> False)"

section \<open>The decoder \<^verbatim>\<open>_parse\<close>\<close>

text \<open>
  The decoder is embedded as it runs on Python 3, where \<^verbatim>\<open>version_info.major >= 3\<close> holds
  and \<^verbatim>\<open>_text_wrapper\<close> is \<^verbatim>\<open>TextIOWrapper\<close>, and with \<^verbatim>\<open>assert\<close> statements executed (no
  \<^verbatim>\<open>-O\<close>). A metadata value is a string or a list of strings. The result of \<^verbatim>\<open>_parse\<close> is
  a dictionary from key strings to values of three kinds.
\<close>

datatype meta_value = Scalar pystr | Sequence "pystr list"

type_synonym metadata = "pystr \<rightharpoonup> meta_value"
type_synonym attachments = "pystr \<rightharpoonup> bytes"

datatype pvalue = Content pystr | Metadata metadata | Attachments attachments

type_synonym parsed = "string \<rightharpoonup> pvalue"

text \<open>
  The loop over the rows of the metadata file:
  \<^verbatim>\<open>
  for metadataLine in metadataReader:
      assert len(metadataLine) >= 2
      if len(metadataLine) > 2:
          metadata[metadataLine[0]] = metadataLine[1:]
      else:
          metadata[metadataLine[0]] = metadataLine[1]
  \<close>
\<close>

fun metadata_loop :: "pystr list gen \<Rightarrow> metadata \<Rightarrow> exn + metadata" where
  "metadata_loop [] metadata = Inr metadata"
| "metadata_loop (Inl e # rest) metadata = Inl e"
| "metadata_loop (Inr metadataLine # rest) metadata =
     (if \<not> length metadataLine \<ge> 2 then Inl AssertionError
      else if length metadataLine > 2 then
        metadata_loop rest (metadata(metadataLine ! 0 \<mapsto> Sequence (drop 1 metadataLine)))
      else
        metadata_loop rest (metadata(metadataLine ! 0 \<mapsto> Scalar (metadataLine ! 1))))"

text \<open>
  The part under the comment \<^verbatim>\<open># extract the metadata\<close>: the name is taken off the list
  of member names first, the type of the member is tested afterwards. The value is the
  metadata and the list of names that remain.
  \<^verbatim>\<open>
  metadata = {}
  if "__METADATA__" in memberNames:
      memberNames.remove("__METADATA__")
      metadataMember = tarFile.getmember("__METADATA__")
      if not metadataMember.issym() and metadataMember.isfile():
          metadataFile = _text_wrapper(tarFile.extractfile(metadataMember))
          metadataReader = _wrapped_csv(metadataFile)
          for metadataLine in metadataReader: ...
  \<close>
\<close>

definition extract_metadata ::
  "'tf pylib \<Rightarrow> 'tf \<Rightarrow> pystr list \<Rightarrow> (metadata \<times> pystr list) traced"
where
  "extract_metadata lib tarFile memberNames =
     (if py ''__METADATA__'' \<in> set memberNames then
        bind_traced (lift (getmember lib tarFile (py ''__METADATA__'')))
          (\<lambda>metadataMember.
             if \<not> issym metadataMember \<and> isfile metadataMember then
               bind_traced
                 (logged (TarExtract metadataMember)
                    (metadata_loop
                       (wrapped_csv (csv_reader lib) (unicode_names lib)
                          (text_lines lib tarFile metadataMember))
                       Map.empty))
                 (\<lambda>metadata. done_with (metadata, remove1 (py ''__METADATA__'') memberNames))
             else done_with (Map.empty, remove1 (py ''__METADATA__'') memberNames))
      else done_with (Map.empty, memberNames))"

text \<open>
  \<^verbatim>\<open>TextIOWrapper(f, encoding='utf8').read()\<close>, the branch of Python 3, and
  \<^verbatim>\<open>f.read().decode('utf8')\<close>, the branch of Python 2.
\<close>

definition read_text :: "bytes \<Rightarrow> exn + pystr" where
  "read_text b = and_then (utf8_decode b) (\<lambda>s. Inr (translate_newlines s))"

definition read_text_py2 :: "bytes \<Rightarrow> exn + pystr" where
  "read_text_py2 b = utf8_decode b"

text \<open>
  The part under the comment \<^verbatim>\<open># get the content\<close>, on Python 3:
  \<^verbatim>\<open>
  content = ""
  if "__TEXT__" in memberNames:
      memberNames.remove("__TEXT__")
      contentMember = tarFile.getmember("__TEXT__")
      if not contentMember.issym() and contentMember.isfile():
          content = _text_wrapper(tarFile.extractfile(contentMember), encoding='utf8').read()
  \<close>
\<close>

definition extract_content ::
  "'tf pylib \<Rightarrow> 'tf \<Rightarrow> pystr list \<Rightarrow> (pystr \<times> pystr list) traced"
where
  "extract_content lib tarFile memberNames =
     (if py ''__TEXT__'' \<in> set memberNames then
        bind_traced (lift (getmember lib tarFile (py ''__TEXT__'')))
          (\<lambda>contentMember.
             if \<not> issym contentMember \<and> isfile contentMember then
               bind_traced
                 (logged (TarExtract contentMember)
                    (and_then (extractfile_read lib tarFile contentMember) read_text))
                 (\<lambda>content. done_with (content, remove1 (py ''__TEXT__'') memberNames))
             else done_with ([], remove1 (py ''__TEXT__'') memberNames))
      else done_with ([], memberNames))"

text \<open>
  The part under the comment \<^verbatim>\<open># get the remaining files as attachments\<close>:
  \<^verbatim>\<open>
  attachments = {}
  for attachment in memberNames:
      attachmentMember = tarFile.getmember(attachment)
      if not attachmentMember.issym() and attachmentMember.isfile():
          attachments[attachment] = tarFile.extractfile(attachmentMember).read()
  \<close>
\<close>

fun attachments_loop ::
  "'tf pylib \<Rightarrow> 'tf \<Rightarrow> pystr list \<Rightarrow> attachments \<Rightarrow> attachments traced"
where
  "attachments_loop lib tarFile [] attachments = done_with attachments"
| "attachments_loop lib tarFile (attachment # rest) attachments =
     bind_traced (lift (getmember lib tarFile attachment))
       (\<lambda>attachmentMember.
          if \<not> issym attachmentMember \<and> isfile attachmentMember then
            bind_traced
              (logged (TarExtract attachmentMember)
                 (extractfile_read lib tarFile attachmentMember))
              (\<lambda>data. attachments_loop lib tarFile rest (attachments(attachment \<mapsto> data)))
          else attachments_loop lib tarFile rest attachments)"

text \<open>
  \<^verbatim>\<open>_parse(tarOutput)\<close>. The argument is false (\<open>None\<close>) or the pair of the HTTP status
  and the body, which is \<^verbatim>\<open>None\<close> or bytes.
  \<^verbatim>\<open>
  parsed = {}
  if not tarOutput:
      return parsed
  elif tarOutput[1] is None or tarOutput[1] == b"":
      return parsed
  tarFile = tarfile.open(fileobj=BytesIO(tarOutput[1]))
  memberNames = list(tarFile.getnames())
  ...
  parsed["content"] = content
  parsed["metadata"] = metadata
  parsed["attachments"] = attachments
  return parsed
  \<close>
  The function has no \<^verbatim>\<open>with\<close> block and no call of \<^verbatim>\<open>close\<close>: no step below causes the
  event \<open>TarClose\<close>.
\<close>

definition parse :: "'tf pylib \<Rightarrow> (int \<times> bytes option) option \<Rightarrow> parsed traced" where
  "parse lib tarOutput =
     (case tarOutput of
        None \<Rightarrow> done_with Map.empty
      | Some (status, None) \<Rightarrow> done_with Map.empty
      | Some (status, Some response) \<Rightarrow>
          if response = [] then done_with Map.empty
          else
            bind_traced (acquired (tarfile_open lib response))
              (\<lambda>tarFile.
            bind_traced (lift (getnames lib tarFile))
              (\<lambda>memberNames.
            bind_traced (extract_metadata lib tarFile memberNames)
              (\<lambda>(metadata, memberNames).
            bind_traced (extract_content lib tarFile memberNames)
              (\<lambda>(content, memberNames).
            bind_traced (attachments_loop lib tarFile memberNames Map.empty)
              (\<lambda>attachments.
            done_with
              (Map.empty(''content'' \<mapsto> Content content,
                         ''metadata'' \<mapsto> Metadata metadata,
                         ''attachments'' \<mapsto> Attachments attachments))))))))"

section \<open>A library for evaluating the decoder\<close>

text \<open>
  An instance of the library parameters on which the decoder can be run: an archive is
  the list of its members with their content, whatever the response bytes are; lines are
  the UTF-8 text of a member cut behind each line feed; the reader splits a line at its
  commas, as \<^verbatim>\<open>csv.reader\<close> does on a line without quotes.
\<close>

type_synonym archive = "(TarInfo \<times> bytes) list"

fun lines_keepends :: "pystr \<Rightarrow> pystr list" where
  "lines_keepends [] = []"
| "lines_keepends (c # s) =
     (if c = 10 then [c] # lines_keepends s
      else (case lines_keepends s of [] \<Rightarrow> [[c]] | l # ls \<Rightarrow> (c # l) # ls))"

fun split_commas :: "pystr \<Rightarrow> pystr list" where
  "split_commas [] = [[]]"
| "split_commas (c # s) =
     (if c = 44 then [] # split_commas s
      else (case split_commas s of [] \<Rightarrow> [[c]] | f # fs \<Rightarrow> (c # f) # fs))"

text \<open>
  Names resolve to the last member of that name, as \<^verbatim>\<open>TarFile.getmember\<close> documents; the
  content of a member is read from its entry.
\<close>

definition demo_getmember :: "archive \<Rightarrow> pystr \<Rightarrow> exn + TarInfo" where
  "demo_getmember tf n =
     (let ms = filter (\<lambda>m. name m = n) (map fst tf)
      in if ms = [] then Inl KeyError else Inr (last ms))"

definition demo_read :: "archive \<Rightarrow> TarInfo \<Rightarrow> exn + bytes" where
  "demo_read tf m = (case map_of (rev tf) m of None \<Rightarrow> Inl KeyError | Some d \<Rightarrow> Inr d)"

definition demo_lines :: "archive \<Rightarrow> TarInfo \<Rightarrow> pystr gen" where
  "demo_lines tf m =
     (case and_then (demo_read tf m) read_text of
        Inl e \<Rightarrow> [Inl e]
      | Inr s \<Rightarrow> map Inr (lines_keepends s))"

definition demo_reader :: "pystr gen \<Rightarrow> pystr list gen" where
  "demo_reader lines =
     map (\<lambda>l. and_then l (\<lambda>x. Inr (if x = [] then [] else split_commas x))) lines"

definition demo_lib :: "archive \<Rightarrow> archive pylib" where
  "demo_lib a =
     \<lparr> tarfile_open = (\<lambda>b. Inr a),
       getnames = (\<lambda>tf. Inr (map (name \<circ> fst) tf)),
       getmember = demo_getmember,
       extractfile_read = demo_read,
       text_lines = demo_lines,
       csv_reader = demo_reader,
       unicode_names = (\<lambda>n. None) \<rparr>"

definition regular :: "string \<Rightarrow> TarInfo" where
  "regular n = \<lparr> name = py n, type = REGTYPE \<rparr>"

definition bytes_of :: "string \<Rightarrow> bytes" where
  "bytes_of s = map of_char s"

definition symlink :: "string \<Rightarrow> TarInfo" where
  "symlink n = \<lparr> name = py n, type = SYMTYPE \<rparr>"

definition directory :: "string \<Rightarrow> TarInfo" where
  "directory n = \<lparr> name = py n, type = DIRTYPE \<rparr>"

text \<open>
  Response bytes that are not empty. The library above opens them as the archive it was
  given.
\<close>

definition tar_bytes :: bytes where
  "tar_bytes = bytes_of ''ustar''"

text \<open>
  Archives: a text alone; symbolic links under the two special names beside one file; a
  text with a binary file, a directory and a symbolic link; a text with a carriage
  return and a line feed.
\<close>

definition hello_archive :: archive where
  "hello_archive = [(regular ''__TEXT__'', bytes_of ''hello world'')]"

definition symlink_archive :: archive where
  "symlink_archive =
     [(symlink ''__TEXT__'', []), (symlink ''__METADATA__'', []),
      (regular ''a.txt'', bytes_of ''data'')]"

definition attachment_archive :: archive where
  "attachment_archive =
     [(regular ''__TEXT__'', bytes_of ''hi''),
      (regular ''image.png'', [0x89, 0x50, 0x00, 0xFF]),
      (directory ''dir'', []),
      (symlink ''link'', [])]"

definition crlf_archive :: archive where
  "crlf_archive = [(regular ''__TEXT__'', [0x61, 0x0D, 0x0A, 0x62])]"

text \<open>A metadata file whose second line has a key and no value.\<close>

definition short_row_archive :: archive where
  "short_row_archive =
     [(regular ''__METADATA__'', bytes_of ''title,MyDoc\<newline>lonely''),
      (regular ''__TEXT__'', bytes_of ''hello'')]"

section \<open>Sequencing and traces\<close>

lemma and_then_Inr_iff: "and_then r f = Inr y \<longleftrightarrow> (\<exists>x. r = Inr x \<and> f x = Inr y)"
  by (cases r) (simp_all add: and_then_def)

lemma and_then_simps [simp]:
  "and_then (Inl e) f = Inl e" "and_then (Inr x) f = f x"
  by (simp_all add: and_then_def)

lemma fst_bind_traced: "fst (bind_traced m f) = and_then (fst m) (\<lambda>x. fst (f x))"
  by (cases m; cases "fst m") (auto simp: bind_traced_def split: prod.splits)

lemma snd_bind_traced:
  "snd (bind_traced m f) = (case fst m of Inl e \<Rightarrow> snd m | Inr x \<Rightarrow> snd m @ snd (f x))"
  by (cases m; cases "fst m") (auto simp: bind_traced_def split: prod.splits)

lemma traced_simps [simp]:
  "fst (done_with x) = Inr x" "snd (done_with x) = []"
  "fst (lift r) = r" "snd (lift r) = []"
  "fst (logged ev r) = r" "snd (logged ev r) = [ev]"
  "fst (acquired r) = r" "snd (acquired r) = (case r of Inl e \<Rightarrow> [] | Inr x \<Rightarrow> [TarOpen])"
  by (simp_all add: done_with_def lift_def logged_def acquired_def split: sum.splits)

text \<open>The value of each part of the decoder, without its trace.\<close>

lemma fst_extract_metadata:
  "fst (extract_metadata lib tf names) =
     (if py ''__METADATA__'' \<in> set names then
        and_then (getmember lib tf (py ''__METADATA__''))
          (\<lambda>m. if \<not> issym m \<and> isfile m then
                 and_then (metadata_loop (wrapped_csv (csv_reader lib) (unicode_names lib)
                             (text_lines lib tf m)) Map.empty)
                   (\<lambda>md. Inr (md, remove1 (py ''__METADATA__'') names))
               else Inr (Map.empty, remove1 (py ''__METADATA__'') names))
      else Inr (Map.empty, names))"
  by (cases "getmember lib tf (py ''__METADATA__'')")
     (simp_all add: extract_metadata_def fst_bind_traced)

lemma fst_extract_content:
  "fst (extract_content lib tf names) =
     (if py ''__TEXT__'' \<in> set names then
        and_then (getmember lib tf (py ''__TEXT__''))
          (\<lambda>m. if \<not> issym m \<and> isfile m then
                 and_then (and_then (extractfile_read lib tf m) read_text)
                   (\<lambda>c. Inr (c, remove1 (py ''__TEXT__'') names))
               else Inr ([], remove1 (py ''__TEXT__'') names))
      else Inr ([], names))"
  by (cases "getmember lib tf (py ''__TEXT__'')")
     (simp_all add: extract_content_def fst_bind_traced)

lemma fst_parse:
  "b \<noteq> [] \<Longrightarrow> fst (parse lib (Some (st, Some b))) =
     and_then (tarfile_open lib b) (\<lambda>tf.
     and_then (getnames lib tf) (\<lambda>names.
     and_then (fst (extract_metadata lib tf names)) (\<lambda>(md, names1).
     and_then (fst (extract_content lib tf names1)) (\<lambda>(c, names2).
     and_then (fst (attachments_loop lib tf names2 Map.empty)) (\<lambda>att.
       Inr (Map.empty(''content'' \<mapsto> Content c, ''metadata'' \<mapsto> Metadata md,
                      ''attachments'' \<mapsto> Attachments att)))))))"
  by (simp add: parse_def fst_bind_traced split_def)

lemma extract_metadata_names:
  "fst (extract_metadata lib tf names) = Inr (md, names1) \<Longrightarrow>
     names1 = remove1 (py ''__METADATA__'') names"
  by (auto simp: fst_extract_metadata and_then_Inr_iff remove1_idem split: if_splits)

lemma extract_content_names:
  "fst (extract_content lib tf names) = Inr (c, names1) \<Longrightarrow>
     names1 = remove1 (py ''__TEXT__'') names"
  by (auto simp: fst_extract_content and_then_Inr_iff remove1_idem split: if_splits)

text \<open>A run that returns a dictionary went through every part.\<close>

lemma parse_returns:
  assumes "b \<noteq> []" and "fst (parse lib (Some (st, Some b))) = Inr p"
  obtains tf names md c att where
    "tarfile_open lib b = Inr tf" "getnames lib tf = Inr names"
    "fst (extract_metadata lib tf names) = Inr (md, remove1 (py ''__METADATA__'') names)"
    "fst (extract_content lib tf (remove1 (py ''__METADATA__'') names))
       = Inr (c, remove1 (py ''__TEXT__'') (remove1 (py ''__METADATA__'') names))"
    "fst (attachments_loop lib tf
            (remove1 (py ''__TEXT__'') (remove1 (py ''__METADATA__'') names)) Map.empty) = Inr att"
    "p = Map.empty(''content'' \<mapsto> Content c, ''metadata'' \<mapsto> Metadata md,
                   ''attachments'' \<mapsto> Attachments att)"
proof -
  from assms obtain tf names md names1 c names2 att where
    h: "tarfile_open lib b = Inr tf" "getnames lib tf = Inr names"
    "fst (extract_metadata lib tf names) = Inr (md, names1)"
    "fst (extract_content lib tf names1) = Inr (c, names2)"
    "fst (attachments_loop lib tf names2 Map.empty) = Inr att"
    "p = Map.empty(''content'' \<mapsto> Content c, ''metadata'' \<mapsto> Metadata md,
                   ''attachments'' \<mapsto> Attachments att)"
    by (auto simp: fst_parse and_then_Inr_iff split_def)
  have "names1 = remove1 (py ''__METADATA__'') names"
    using h(3) by (rule extract_metadata_names)
  moreover have "names2 = remove1 (py ''__TEXT__'') names1"
    using h(4) by (rule extract_content_names)
  ultimately show thesis using that h by simp
qed

text \<open>
  The trace of a call is empty, or it is the opening of the archive followed by
  extractions of regular files.
\<close>

lemma extracts_regular_simps [simp]:
  "extracts_regular (TarExtract m) \<longleftrightarrow> \<not> issym m \<and> isfile m"
  "\<not> extracts_regular TarOpen" "\<not> extracts_regular TarClose"
  by (simp_all add: extracts_regular_def)

lemma snd_extract_metadata: "list_all extracts_regular (snd (extract_metadata lib tf names))"
  by (cases "getmember lib tf (py ''__METADATA__'')")
     (simp_all add: extract_metadata_def snd_bind_traced split: sum.splits)

lemma snd_extract_content: "list_all extracts_regular (snd (extract_content lib tf names))"
  by (cases "getmember lib tf (py ''__TEXT__'')")
     (simp_all add: extract_content_def snd_bind_traced split: sum.splits)

lemma snd_attachments_loop: "list_all extracts_regular (snd (attachments_loop lib tf ns att))"
proof (induction ns arbitrary: att)
  case Nil
  then show ?case by simp
next
  case (Cons n ns)
  show ?case
    by (cases "getmember lib tf n")
       (simp_all add: attachments_loop.simps(2) snd_bind_traced Cons split: sum.splits)
qed

lemma snd_parse:
  "snd (parse lib tarOutput) = []
   \<or> (\<exists>evs. snd (parse lib tarOutput) = TarOpen # evs \<and> list_all extracts_regular evs)"
proof (cases tarOutput)
  case None
  then show ?thesis by (simp add: parse_def)
next
  case (Some a)
  obtain st body where a: "a = (st, body)" by (cases a)
  show ?thesis
  proof (cases body)
    case None
    with Some a show ?thesis by (simp add: parse_def)
  next
    case (Some b)
    show ?thesis
    proof (cases "b = []")
      case True
      with Some \<open>tarOutput = Some a\<close> a show ?thesis by (simp add: parse_def)
    next
      case False
      show ?thesis
      proof (cases "tarfile_open lib b")
        case (Inl e)
        with False Some \<open>tarOutput = Some a\<close> a show ?thesis
          by (simp add: parse_def snd_bind_traced)
      next
        case (Inr tf)
        with False Some \<open>tarOutput = Some a\<close> a show ?thesis
          by (auto simp add: parse_def snd_bind_traced split_def
              snd_extract_metadata snd_extract_content snd_attachments_loop
              split: sum.splits)
      qed
    qed
  qed
qed

lemma parse_trace_cases:
  obtains "snd (parse lib tarOutput) = []"
  | evs where "snd (parse lib tarOutput) = TarOpen # evs" "list_all extracts_regular evs"
  using snd_parse [of lib tarOutput] by blast

lemma extracts_regular_count:
  "list_all extracts_regular evs \<Longrightarrow>
     count_list evs TarOpen = 0 \<and> count_list evs TarClose = 0
     \<and> TarOpen \<notin> set evs \<and> TarClose \<notin> set evs"
proof (induction evs)
  case Nil
  then show ?case by simp
next
  case (Cons ev evs)
  then show ?case by (cases ev) simp_all
qed

section \<open>The escape codec is lossless\<close>

lemma hexval_hexdigit: "d < 16 \<Longrightarrow> hexval (hexdigit d) = Some d"
  by (auto simp: hexval_def hexdigit_def)

lemma hexdigit_ascii: "d < 16 \<Longrightarrow> hexdigit d < 128"
  by (simp add: hexdigit_def)

lemma digits2: 
  assumes "c < 256" shows "16 * (c div 16 mod 16) + c mod 16 = (c::nat)"
proof -
  have "c mod 256 = 16 * (c div 16 mod 16) + c mod 16"
    using mod_mult2_eq [of c 16 16] by simp
  moreover have "c mod 256 = c" using assms by simp
  ultimately show ?thesis by (simp only:)
qed

lemma digits4: 
  assumes "c < 65536"
  shows "4096 * (c div 4096 mod 16) + 256 * (c div 256 mod 16) + 16 * (c div 16 mod 16) + c mod 16 = (c::nat)"
proof -
  have a: "c mod 256 = 16 * (c div 16 mod 16) + c mod 16"
    using mod_mult2_eq [of c 16 16] by simp
  have b: "c mod 4096 = 256 * (c div 256 mod 16) + c mod 256"
    using mod_mult2_eq [of c 256 16] by simp
  have d: "c mod 65536 = 4096 * (c div 4096 mod 16) + c mod 4096"
    using mod_mult2_eq [of c 4096 16] by simp
  have "c mod 65536 = c" using assms by simp
  then show ?thesis by (simp only: a b d add.assoc)
qed

lemma digits6: 
  assumes "c < 16777216"
  shows "1048576 * (c div 1048576 mod 16) + 65536 * (c div 65536 mod 16) + 4096 * (c div 4096 mod 16) + 256 * (c div 256 mod 16) + 16 * (c div 16 mod 16) + c mod 16 = (c::nat)"
proof -
  have a: "c mod 256 = 16 * (c div 16 mod 16) + c mod 16"
    using mod_mult2_eq [of c 16 16] by simp
  have b: "c mod 4096 = 256 * (c div 256 mod 16) + c mod 256"
    using mod_mult2_eq [of c 256 16] by simp
  have d: "c mod 65536 = 4096 * (c div 4096 mod 16) + c mod 4096"
    using mod_mult2_eq [of c 4096 16] by simp
  have e: "c mod 1048576 = 65536 * (c div 65536 mod 16) + c mod 65536"
    using mod_mult2_eq [of c 65536 16] by simp
  have f: "c mod 16777216 = 1048576 * (c div 1048576 mod 16) + c mod 1048576"
    using mod_mult2_eq [of c 1048576 16] by simp
  have "c mod 16777216 = c" using assms by simp
  then show ?thesis by (simp only: a b d e f add.assoc)
qed

lemma unescape_plain: "c \<noteq> 0x5C \<Longrightarrow> unescape_units nm (c # s) = emit c (unescape_units nm s)"
  by simp

lemma hexescape_digit:
  "a < 16 \<Longrightarrow> hexescape (Suc n) (hexdigit a # s) v = hexescape n s (v * 16 + a)"
  by (simp add: hexval_hexdigit)

lemma hexescape2: "a < 16 \<Longrightarrow> b < 16 \<Longrightarrow>
   hexescape 2 (hexdigit a # hexdigit b # s) 0 = Some (16 * a + b)"
proof -
  have n: "(2::nat) = Suc (Suc 0)" by simp
  show "a < 16 \<Longrightarrow> b < 16 \<Longrightarrow> ?thesis"
    unfolding n by (simp add: hexval_hexdigit)
qed

lemma hexescape4: "a < 16 \<Longrightarrow> b < 16 \<Longrightarrow> c < 16 \<Longrightarrow> d < 16 \<Longrightarrow>
   hexescape 4 (hexdigit a # hexdigit b # hexdigit c # hexdigit d # s) 0
     = Some (4096 * a + 256 * b + 16 * c + d)"
proof -
  have n: "(4::nat) = Suc (Suc (Suc (Suc 0)))" by simp
  show "a < 16 \<Longrightarrow> b < 16 \<Longrightarrow> c < 16 \<Longrightarrow> d < 16 \<Longrightarrow> ?thesis"
    unfolding n by (simp add: hexval_hexdigit)
qed

lemma hexescape8: "a < 16 \<Longrightarrow> b < 16 \<Longrightarrow> c < 16 \<Longrightarrow> d < 16 \<Longrightarrow> e < 16 \<Longrightarrow> f < 16 \<Longrightarrow>
   hexescape 8 (48 # 48 # hexdigit a # hexdigit b # hexdigit c # hexdigit d # hexdigit e # hexdigit f # s) 0
     = Some (1048576 * a + 65536 * b + 4096 * c + 256 * d + 16 * e + f)"
proof -
  have n: "(8::nat) = Suc (Suc (Suc (Suc (Suc (Suc (Suc (Suc 0)))))))" by simp
  have z: "hexval 48 = Some 0" by (simp add: hexval_def)
  show "a < 16 \<Longrightarrow> b < 16 \<Longrightarrow> c < 16 \<Longrightarrow> d < 16 \<Longrightarrow> e < 16 \<Longrightarrow> f < 16 \<Longrightarrow> ?thesis"
    unfolding n by (simp add: hexval_hexdigit z)
qed

lemma unescape_hex:
  assumes "e = 0x78 \<and> count = 2 \<or> e = 0x75 \<and> count = 4 \<or> e = 0x55 \<and> count = 8"
    and "hexescape count r 0 = Some ch" and "ch < 0x110000"
  shows "unescape_units nm (0x5C # e # r) = emit ch (unescape_units nm (drop count r))"
  using assms by (auto simp add: is_octal_def simp del: hexescape.simps)

lemma unescape_escape_char:
  assumes "c < 0x110000"
  shows "unescape_units nm (escape_char c @ s) = emit c (unescape_units nm s)"
proof -
  consider (print) "0x20 \<le> c" "c < 127" "c \<noteq> 0x5C"
    | (bs) "c = 0x5C" | (tab) "c = 9" | (lf) "c = 10" | (cr) "c = 13"
    | (x) "c < 0x100" "\<not> (0x20 \<le> c \<and> c < 127)" "c \<noteq> 9" "c \<noteq> 10" "c \<noteq> 13"
    | (u) "0x100 \<le> c" "c < 0x10000"
    | (U) "0x10000 \<le> c"
    by linarith
  then show ?thesis
  proof cases
    case print then show ?thesis by (simp add: escape_char_def)
  next
    case bs then show ?thesis by (simp add: escape_char_def)
  next
    case tab then show ?thesis by (simp add: escape_char_def)
  next
    case lf then show ?thesis by (simp add: escape_char_def)
  next
    case cr then show ?thesis by (simp add: escape_char_def)
  next
    case x
    then have e: "escape_char c = [0x5C, 0x78, hexdigit ((c div 16) mod 16), hexdigit (c mod 16)]"
      by (auto simp: escape_char_def)
    have "hexescape 2 (hexdigit ((c div 16) mod 16) # hexdigit (c mod 16) # s) 0
            = Some (16 * (c div 16 mod 16) + c mod 16)"
      by (rule hexescape2) simp_all
    then have h: "hexescape 2 (hexdigit ((c div 16) mod 16) # hexdigit (c mod 16) # s) 0 = Some c"
      by (simp only: digits2 [OF x(1)])
    show ?thesis using assms unescape_hex [of "0x78" 2, OF _ h]
      by (simp only: e append_Cons append_Nil) simp
  next
    case u 
    then have e: "escape_char c = [0x5C, 0x75, hexdigit ((c div 4096) mod 16), hexdigit ((c div 256) mod 16),
         hexdigit ((c div 16) mod 16), hexdigit (c mod 16)]"
      by (auto simp: escape_char_def)
    have "hexescape 4 (hexdigit ((c div 4096) mod 16) # hexdigit ((c div 256) mod 16) #
         hexdigit ((c div 16) mod 16) # hexdigit (c mod 16) # s) 0
        = Some (4096 * (c div 4096 mod 16) + 256 * (c div 256 mod 16) + 16 * (c div 16 mod 16) + c mod 16)"
      by (rule hexescape4) simp_all
    then have h: "hexescape 4 (hexdigit ((c div 4096) mod 16) # hexdigit ((c div 256) mod 16) #
         hexdigit ((c div 16) mod 16) # hexdigit (c mod 16) # s) 0 = Some c"
      by (simp only: digits4 [OF u(2)])
    show ?thesis using assms unescape_hex [of "0x75" 4, OF _ h]
      by (simp only: e append_Cons append_Nil) simp
  next
    case U 
    then have e: "escape_char c = [0x5C, 0x55, 0x30, 0x30,
         hexdigit ((c div 1048576) mod 16), hexdigit ((c div 65536) mod 16),
         hexdigit ((c div 4096) mod 16), hexdigit ((c div 256) mod 16),
         hexdigit ((c div 16) mod 16), hexdigit (c mod 16)]"
      by (auto simp: escape_char_def)
    have c6: "c < 16777216" using assms by simp
    have "hexescape 8 (48 # 48 # hexdigit ((c div 1048576) mod 16) # hexdigit ((c div 65536) mod 16) #
         hexdigit ((c div 4096) mod 16) # hexdigit ((c div 256) mod 16) #
         hexdigit ((c div 16) mod 16) # hexdigit (c mod 16) # s) 0 
       = Some (1048576 * (c div 1048576 mod 16) + 65536 * (c div 65536 mod 16) + 4096 * (c div 4096 mod 16) + 256 * (c div 256 mod 16) + 16 * (c div 16 mod 16) + c mod 16)"
      by (rule hexescape8) simp_all
    then have h: "hexescape 8 (48 # 48 # hexdigit ((c div 1048576) mod 16) # hexdigit ((c div 65536) mod 16) #
         hexdigit ((c div 4096) mod 16) # hexdigit ((c div 256) mod 16) #
         hexdigit ((c div 16) mod 16) # hexdigit (c mod 16) # s) 0 = Some c"
      by (simp only: digits6 [OF c6])
    show ?thesis using assms unescape_hex [of "0x55" 8, OF _ h]
      by (simp only: e append_Cons append_Nil) simp
  qed
qed

lemma unescape_escape_units:
  "is_str s \<Longrightarrow> unescape_units nm (escape_units s @ t) = and_then (unescape_units nm t) (\<lambda>r. Inr (s @ r))"
proof (induction s)
  case Nil
  then show ?case by (simp add: escape_units_def and_then_def split: sum.splits)
next
  case (Cons c s)
  then show ?case
    by (simp add: escape_units_def is_str_def unescape_escape_char emit_def and_then_def split: sum.splits)
qed

lemma escape_char_ascii: "c < 0x110000 \<Longrightarrow> list_all (\<lambda>u. u < 128) (escape_char c)"
  by (simp add: escape_char_def hexdigit_ascii)

lemma escape_units_ascii: "is_str s \<Longrightarrow> list_all (\<lambda>u. u < 128) (escape_units s)"
  by (induction s) (simp_all add: escape_units_def is_str_def escape_char_ascii)

lemma unat_of_nat_units:
  "list_all (\<lambda>u. u < 128) us \<Longrightarrow> map (unat \<circ> (of_nat :: nat \<Rightarrow> byte)) us = us"
  by (induction us) (simp_all add: unat_of_nat)

lemma escape_units_bytes:
  "is_str s \<Longrightarrow> map (unat \<circ> (of_nat :: nat \<Rightarrow> byte)) (escape_units s) = escape_units s"
  by (rule unat_of_nat_units) (rule escape_units_ascii)

lemma ascii_units_bytes:
  "list_all (\<lambda>u. u < 128) us \<Longrightarrow> list_all (\<lambda>c. unat c < 128) (map of_nat us :: bytes)"
  by (induction us) (simp_all add: unat_of_nat)

lemma csv_encode_units: "is_str s \<Longrightarrow> csv_encode s = Inr (escape_units s)"
  by (simp add: csv_encode_def ascii_decode_def unicode_escape_encode_def
      ascii_units_bytes escape_units_ascii escape_units_bytes)

lemma csv_decode_units:
  "is_str s \<Longrightarrow> csv_decode names (escape_units s) = Inr s"
  using unescape_escape_units [of s names "[]"]
  by (simp add: csv_decode_def ascii_encode_def unicode_escape_decode_def
      escape_units_ascii escape_units_bytes)

lemma is_str_bytes: "is_str (map unat (b :: bytes))"
proof -
  have "unat c < 256" for c :: byte
    using unsigned_less [of c] by simp
  then have "unat c < 0x110000" for c :: byte
    by (rule less_trans) simp
  then show ?thesis by (simp add: is_str_def list_all_iff)
qed

lemma latin1_encode_bytes: "latin1_encode (map unat (b :: bytes)) = Inr b"
proof -
  have "unat c < 256" for c :: byte
    using unsigned_less [of c] by simp
  then show ?thesis by (simp add: latin1_encode_def list_all_iff map_idI)
qed

text \<open>
  Claim C2. For every string \<open>s\<close>, the empty one and those with null characters,
  backslashes or control characters included, unescaping the escaped form gives \<open>s\<close>
  back: \<^verbatim>\<open>_csv_decode(_csv_encode(s)) == s\<close>. It holds for both pairs of lambdas: for every
  \<^verbatim>\<open>str\<close> of Python 3 and for every byte string of Python 2. Neither step raises.
\<close>

theorem csv_roundtrip:
  "(is_str s \<longrightarrow> and_then (csv_encode s) (csv_decode names) = Inr s)
   \<and> csv_decode_py2 names (csv_encode_py2 b) = Inr b"
proof
  show "is_str s \<longrightarrow> and_then (csv_encode s) (csv_decode names) = Inr s"
    by (simp add: csv_encode_units csv_decode_units)
next
  have "unicode_escape_decode names (unicode_escape_encode (map unat b)) = Inr (map unat b)"
    using unescape_escape_units [of "map unat b" names "[]"]
    by (simp add: unicode_escape_decode_def unicode_escape_encode_def escape_units_bytes is_str_bytes)
  then show "csv_decode_py2 names (csv_encode_py2 b) = Inr b"
    by (simp add: csv_decode_py2_def csv_encode_py2_def latin1_decode_def latin1_encode_bytes)
qed

text \<open>
  A string with a null character, a backslash, a line feed, a letter, and one code point
  of each of the three hexadecimal forms; its escaped form is
  \<^verbatim>\<open>\x00\\\nA\xe9\u20ac\U0001f600\<close>.
\<close>

theorem csv_roundtrip_witness:
  "is_str [0, 0x5C, 0x0A, 0x41, 0xE9, 0x20AC, 0x1F600]
   \<and> csv_encode [0, 0x5C, 0x0A, 0x41, 0xE9, 0x20AC, 0x1F600]
       = Inr [92, 120, 48, 48, 92, 92, 92, 110, 65, 92, 120, 101, 57, 92, 117, 50, 48, 97, 99,
              92, 85, 48, 48, 48, 49, 102, 54, 48, 48]
   \<and> and_then (csv_encode [0, 0x5C, 0x0A, 0x41, 0xE9, 0x20AC, 0x1F600]) (csv_decode (\<lambda>n. None))
       = Inr [0, 0x5C, 0x0A, 0x41, 0xE9, 0x20AC, 0x1F600]
   \<and> csv_decode_py2 (\<lambda>n. None) (csv_encode_py2 [0, 0x5C, 0xFF]) = Inr [0, 0x5C, 0xFF]"
proof -
  have s: "is_str [0, 0x5C, 0x0A, 0x41, 0xE9, 0x20AC, 0x1F600]"
    by (simp add: is_str_def)
  have e: "csv_encode [0, 0x5C, 0x0A, 0x41, 0xE9, 0x20AC, 0x1F600]
       = Inr [92, 120, 48, 48, 92, 92, 92, 110, 65, 92, 120, 101, 57, 92, 117, 50, 48, 97, 99,
              92, 85, 48, 48, 48, 49, 102, 54, 48, 48]"
    by (simp add: csv_encode_def ascii_decode_def unicode_escape_encode_def escape_units_def
        escape_char_def hexdigit_def)
  note r = csv_roundtrip [of "[0, 0x5C, 0x0A, 0x41, 0xE9, 0x20AC, 0x1F600]" "\<lambda>n. None" "[0, 0x5C, 0xFF]"]
  from r have "is_str [0, 0x5C, 0x0A, 0x41, 0xE9, 0x20AC, 0x1F600] \<longrightarrow>
      and_then (csv_encode [0, 0x5C, 0x0A, 0x41, 0xE9, 0x20AC, 0x1F600]) (csv_decode (\<lambda>n. None))
       = Inr [0, 0x5C, 0x0A, 0x41, 0xE9, 0x20AC, 0x1F600]"
    by (rule conjunct1)
  then have a: "and_then (csv_encode [0, 0x5C, 0x0A, 0x41, 0xE9, 0x20AC, 0x1F600]) (csv_decode (\<lambda>n. None))
       = Inr [0, 0x5C, 0x0A, 0x41, 0xE9, 0x20AC, 0x1F600]"
    using s by (rule mp)
  from r have p: "csv_decode_py2 (\<lambda>n. None) (csv_encode_py2 [0, 0x5C, 0xFF]) = Inr [0, 0x5C, 0xFF]"
    by (rule conjunct2)
  from s e a p show ?thesis by (intro conjI)
qed

section \<open>The rows of the metadata file\<close>

lemma metadata_loop_append:
  "metadata_loop (xs @ ys) md = and_then (metadata_loop xs md) (metadata_loop ys)"
proof (induction xs arbitrary: md)
  case Nil
  then show ?case by simp
next
  case (Cons x xs)
  then show ?case by (cases x) (simp_all del: fun_upd_apply)
qed

lemma metadata_loop_valid:
  "\<forall>r\<in>set pre. 2 \<le> length r \<Longrightarrow> \<exists>m. metadata_loop (map Inr pre) md = Inr m"
  by (induction pre arbitrary: md) simp_all

lemma metadata_loop_short:
  "Inr row \<in> set items \<Longrightarrow> length row < 2 \<Longrightarrow> \<exists>e. metadata_loop items md = Inl e"
proof (induction items arbitrary: md)
  case Nil
  then show ?case by simp
next
  case (Cons x items)
  show ?case
  proof (cases x)
    case (Inl e)
    then show ?thesis by simp
  next
    case (Inr r)
    show ?thesis
    proof (cases "2 \<le> length r")
      case True
      with Cons.prems Inr have "Inr row \<in> set items" by auto
      from Cons.IH [OF this Cons.prems(2)] Inr True show ?thesis by simp
    next
      case False
      with Inr show ?thesis by simp
    qed
  qed
qed

text \<open>
  Claim C3. For every parsed row \<^verbatim>\<open>[key, value1, value2, ...]\<close> of the metadata file: a
  row with exactly one value after the key stores \<^verbatim>\<open>metadata[key] = value1\<close>, a string; a
  row with more values stores \<^verbatim>\<open>metadata[key] = [value1, value2, ...]\<close>, the values in the
  order of the row. Here \<open>pre\<close> are the rows read before, which the loop has accepted,
  and \<open>m\<close> is the dictionary they left: the row changes the entry of its key and no
  other.
\<close>

theorem metadata_row_stored:
  assumes "\<forall>r\<in>set pre. 2 \<le> length r"
  shows "\<exists>m. metadata_loop (map Inr pre) md = Inr m
           \<and> metadata_loop (map Inr pre @ [Inr [key, v]]) md = Inr (m(key \<mapsto> Scalar v))
           \<and> metadata_loop (map Inr pre @ [Inr (key # v # w # ws)]) md
               = Inr (m(key \<mapsto> Sequence (v # w # ws)))"
proof -
  from metadata_loop_valid [OF assms] obtain m where "metadata_loop (map Inr pre) md = Inr m" ..
  then show ?thesis by (simp add: metadata_loop_append)
qed

theorem metadata_row_stored_witness:
  "metadata_loop (map Inr [[py ''title'', py ''MyDoc'']] @ [Inr [py ''Author'', py ''Alice'', py ''Bob'']]) Map.empty
     = Inr [py ''title'' \<mapsto> Scalar (py ''MyDoc''), py ''Author'' \<mapsto> Sequence [py ''Alice'', py ''Bob'']]
   \<and> metadata_loop (map Inr [[py ''title'', py ''MyDoc'']] @ [Inr [py ''Author'', py ''Alice'']]) Map.empty
     = Inr [py ''title'' \<mapsto> Scalar (py ''MyDoc''), py ''Author'' \<mapsto> Scalar (py ''Alice'')]"
  using metadata_row_stored [of "[[py ''title'', py ''MyDoc'']]" Map.empty "py ''Author''" "py ''Alice''" "py ''Bob''" "[]"]
  by (auto simp: py_def)

section \<open>The parts of \<^verbatim>\<open>_parse\<close>\<close>

lemma fst_attachments_loop_Cons:
  "fst (attachments_loop lib tf (n # ns) att) =
     and_then (getmember lib tf n)
       (\<lambda>m. if \<not> issym m \<and> isfile m then
              and_then (extractfile_read lib tf m)
                (\<lambda>d. fst (attachments_loop lib tf ns (att(n \<mapsto> d))))
            else fst (attachments_loop lib tf ns att))"
  by (cases "getmember lib tf n") (simp_all add: fst_bind_traced)

declare attachments_loop.simps(2) [simp del]

lemma attachments_loop_other:
  "fst (attachments_loop lib tf ns att0) = Inr att \<Longrightarrow> k \<notin> set ns \<Longrightarrow> att k = att0 k"
proof (induction ns arbitrary: att0)
  case Nil
  then show ?case by simp
next
  case (Cons n ns)
  then show ?case
    by (auto simp: fst_attachments_loop_Cons and_then_Inr_iff split: if_splits)
qed

lemma attachments_loop_member:
  assumes "fst (attachments_loop lib tf ns att0) = Inr att" and "n \<in> set ns"
  shows "\<exists>m. getmember lib tf n = Inr m \<and>
           (if \<not> issym m \<and> isfile m
            then \<exists>d. extractfile_read lib tf m = Inr d \<and> att n = Some d
            else att n = att0 n)"
  using assms
proof (induction ns arbitrary: att0)
  case Nil
  then show ?case by simp
next
  case (Cons a ns)
  from Cons.prems(1) obtain m where m: "getmember lib tf a = Inr m"
    by (auto simp: fst_attachments_loop_Cons and_then_Inr_iff)
  show ?case
  proof (cases "\<not> issym m \<and> isfile m")
    case True
    with Cons.prems(1) m obtain d where d: "extractfile_read lib tf m = Inr d"
      and rest: "fst (attachments_loop lib tf ns (att0(a \<mapsto> d))) = Inr att"
      by (auto simp: fst_attachments_loop_Cons and_then_Inr_iff)
    show ?thesis
    proof (cases "n \<in> set ns")
      case True
      from Cons.IH [OF rest True] obtain m' where m': "getmember lib tf n = Inr m'"
        and v: "if \<not> issym m' \<and> isfile m'
            then \<exists>d. extractfile_read lib tf m' = Inr d \<and> att n = Some d
            else att n = (att0(a \<mapsto> d)) n" by blast
      show ?thesis
      proof (cases "n = a")
        case True
        with m m' have "m' = m" by simp
        with v \<open>\<not> issym m \<and> isfile m\<close> m' show ?thesis by auto
      next
        case False
        with v m' show ?thesis by auto
      qed
    next
      case False
      with Cons.prems(2) have na: "n = a" by simp
      from attachments_loop_other [OF rest False] na have "att n = Some d" by simp
      with m d na True show ?thesis by auto
    qed
  next
    case False
    with Cons.prems(1) m have rest: "fst (attachments_loop lib tf ns att0) = Inr att"
      by (auto simp: fst_attachments_loop_Cons and_then_Inr_iff)
    show ?thesis
    proof (cases "n \<in> set ns")
      case True
      from Cons.IH [OF rest True] show ?thesis .
    next
      case nin: False
      with Cons.prems(2) have na: "n = a" by simp
      from attachments_loop_other [OF rest nin] na m False show ?thesis by auto
    qed
  qed
qed

lemma attachments_loop_total:
  assumes "\<forall>n\<in>set ns. \<exists>m. getmember lib tf n = Inr m \<and>
             (\<not> issym m \<and> isfile m \<longrightarrow> (\<exists>d. extractfile_read lib tf m = Inr d))"
  shows "\<exists>att. fst (attachments_loop lib tf ns att0) = Inr att"
  using assms
proof (induction ns arbitrary: att0)
  case Nil
  then show ?case by simp
next
  case (Cons a ns)
  from Cons.prems obtain m where m: "getmember lib tf a = Inr m"
    and r: "\<not> issym m \<and> isfile m \<longrightarrow> (\<exists>d. extractfile_read lib tf m = Inr d)"
    by auto
  from Cons.prems have rest: "\<forall>n\<in>set ns. \<exists>m. getmember lib tf n = Inr m \<and>
             (\<not> issym m \<and> isfile m \<longrightarrow> (\<exists>d. extractfile_read lib tf m = Inr d))"
    by simp
  show ?case
  proof (cases "\<not> issym m \<and> isfile m")
    case True
    with r obtain d where d: "extractfile_read lib tf m = Inr d" by blast
    from Cons.IH [OF rest, of "att0(a \<mapsto> d)"] obtain att
      where "fst (attachments_loop lib tf ns (att0(a \<mapsto> d))) = Inr att" ..
    with m d True show ?thesis
      by (simp add: fst_attachments_loop_Cons)
  next
    case False
    from Cons.IH [OF rest, of att0] obtain att
      where "fst (attachments_loop lib tf ns att0) = Inr att" ..
    with m False show ?thesis
      by (auto simp add: fst_attachments_loop_Cons)
  qed
qed

section \<open>Runs of the decoder on the archives\<close>

lemmas run_parse =
  parse_def bind_traced_def acquired_def lift_def done_with_def logged_def
  extract_metadata_def extract_content_def attachments_loop.simps
  demo_lib_def demo_getmember_def demo_read_def demo_lines_def demo_reader_def
  regular_def symlink_def directory_def bytes_of_def tar_bytes_def py_def
  issym_def isfile_def read_text_def utf8_decode_def emit_def

lemma hello_run:
  "parse (demo_lib hello_archive) (Some (200, Some tar_bytes))
     = (Inr (Map.empty(''content'' \<mapsto> Content (py ''hello world''),
                      ''metadata'' \<mapsto> Metadata Map.empty,
                      ''attachments'' \<mapsto> Attachments Map.empty)),
        [TarOpen, TarExtract (regular ''__TEXT__'')])"
  by (simp add: run_parse hello_archive_def)

lemma symlink_run:
  "parse (demo_lib symlink_archive) (Some (200, Some tar_bytes))
     = (Inr (Map.empty(''content'' \<mapsto> Content [],
                      ''metadata'' \<mapsto> Metadata Map.empty,
                      ''attachments'' \<mapsto> Attachments [py ''a.txt'' \<mapsto> bytes_of ''data''])),
        [TarOpen, TarExtract (regular ''a.txt'')])"
  by (simp add: run_parse symlink_archive_def)

lemma attachment_run:
  "parse (demo_lib attachment_archive) (Some (200, Some tar_bytes))
     = (Inr (Map.empty(''content'' \<mapsto> Content (py ''hi''),
                      ''metadata'' \<mapsto> Metadata Map.empty,
                      ''attachments'' \<mapsto> Attachments [py ''image.png'' \<mapsto> [0x89, 0x50, 0x00, 0xFF]])),
        [TarOpen, TarExtract (regular ''__TEXT__''), TarExtract (regular ''image.png'')])"
  by (simp add: run_parse attachment_archive_def)

lemma crlf_run:
  "parse (demo_lib crlf_archive) (Some (200, Some tar_bytes))
     = (Inr (Map.empty(''content'' \<mapsto> Content [0x61, 0x0A, 0x62],
                      ''metadata'' \<mapsto> Metadata Map.empty,
                      ''attachments'' \<mapsto> Attachments Map.empty)),
        [TarOpen, TarExtract (regular ''__TEXT__'')])"
  by (simp add: run_parse crlf_archive_def)

lemma short_run:
  "parse (demo_lib short_row_archive) (Some (200, Some tar_bytes))
     = (Inl AssertionError, [TarOpen, TarExtract (regular ''__METADATA__'')])"
  by (simp add: run_parse short_row_archive_def wrapped_csv_def escape_strs_def csv_encode_def csv_decode_def
    ascii_decode_def ascii_encode_def unicode_escape_encode_def unicode_escape_decode_def escape_units_def escape_char_def hexdigit_def)


lemma demo_members:
  "tarfile_open (demo_lib a) b = Inr a"
  "getnames (demo_lib a) tf = Inr (map (name \<circ> fst) tf)"
  "getmember (demo_lib a) = demo_getmember"
  "extractfile_read (demo_lib a) = demo_read"
  by (simp_all add: demo_lib_def)

section \<open>A row without a value\<close>

text \<open>
  Claim C4. A row of the metadata file with fewer than two fields, a key with no value or
  an empty row, is fatal: \<^verbatim>\<open>_parse\<close> raises and returns no dictionary. The exception is
  the \<^verbatim>\<open>AssertionError\<close> of the loop when the reader has delivered the rows before it and
  the loop has accepted them. The rows are those that \<^verbatim>\<open>_wrapped_csv\<close> yields for the
  member that the name \<^verbatim>\<open>__METADATA__\<close> resolves to, a regular file.
\<close>

theorem metadata_short_row_fatal:
  assumes "b \<noteq> []" and "tarfile_open lib b = Inr tf" and "getnames lib tf = Inr names"
    and "py ''__METADATA__'' \<in> set names"
    and "getmember lib tf (py ''__METADATA__'') = Inr m"
    and "\<not> issym m" and "isfile m"
    and "Inr row \<in> set (wrapped_csv (csv_reader lib) (unicode_names lib) (text_lines lib tf m))"
    and "length row < 2"
  shows "(\<exists>e. fst (parse lib (Some (status, Some b))) = Inl e)
       \<and> (\<forall>pre rest.
            wrapped_csv (csv_reader lib) (unicode_names lib) (text_lines lib tf m)
              = map Inr pre @ Inr row # rest
            \<and> (\<forall>r\<in>set pre. 2 \<le> length r)
            \<longrightarrow> fst (parse lib (Some (status, Some b))) = Inl AssertionError)"
proof (intro conjI allI impI)
  from metadata_loop_short [OF assms(8,9)] obtain e where
    "metadata_loop (wrapped_csv (csv_reader lib) (unicode_names lib) (text_lines lib tf m))
       Map.empty = Inl e" ..
  with assms show "\<exists>e. fst (parse lib (Some (status, Some b))) = Inl e"
    by (simp add: fst_parse fst_extract_metadata)
next
  fix pre rest
  assume h: "wrapped_csv (csv_reader lib) (unicode_names lib) (text_lines lib tf m)
              = map Inr pre @ Inr row # rest \<and> (\<forall>r\<in>set pre. 2 \<le> length r)"
  then obtain m0 where "metadata_loop (map Inr pre) Map.empty = Inr m0"
    using metadata_loop_valid by blast
  with h assms(9) have
    "metadata_loop (wrapped_csv (csv_reader lib) (unicode_names lib) (text_lines lib tf m))
       Map.empty = Inl AssertionError"
    by (simp add: metadata_loop_append)
  with assms show "fst (parse lib (Some (status, Some b))) = Inl AssertionError"
    by (simp add: fst_parse fst_extract_metadata)
qed

lemma rows_short: "wrapped_csv (csv_reader (demo_lib short_row_archive)) (unicode_names (demo_lib short_row_archive))
          (text_lines (demo_lib short_row_archive) short_row_archive (regular ''__METADATA__''))
    = map Inr [[py ''title'', py ''MyDoc\<newline>'']] @ Inr [py ''lonely''] # []"
  by code_simp

theorem metadata_short_row_fatal_witness:
  "fst (parse (demo_lib short_row_archive) (Some (200, Some tar_bytes))) = Inl AssertionError"
proof -
  have "Inr [py ''lonely''] \<in> set (wrapped_csv (csv_reader (demo_lib short_row_archive)) (unicode_names (demo_lib short_row_archive))
          (text_lines (demo_lib short_row_archive) short_row_archive (regular ''__METADATA__'')))"
    by (simp add: rows_short)
  from metadata_short_row_fatal [of tar_bytes "demo_lib short_row_archive" short_row_archive
      "map (name \<circ> fst) short_row_archive" "regular ''__METADATA__''" "[py ''lonely'']" 200, OF _ _ _ _ _ _ _ this]
  have "\<forall>pre rest.
            wrapped_csv (csv_reader (demo_lib short_row_archive)) (unicode_names (demo_lib short_row_archive)) (text_lines (demo_lib short_row_archive) short_row_archive (regular ''__METADATA__''))
              = map Inr pre @ Inr [py ''lonely''] # rest
            \<and> (\<forall>r\<in>set pre. 2 \<le> length r)
            \<longrightarrow> fst (parse (demo_lib short_row_archive) (Some (200, Some tar_bytes))) = Inl AssertionError"
    by (simp add: demo_lib_def short_row_archive_def regular_def demo_getmember_def py_def
        issym_def isfile_def tar_bytes_def bytes_of_def)
  from this [rule_format, of "[[py ''title'', py ''MyDoc\<newline>'']]" "[]"] rows_short
  show ?thesis by (simp add: py_def)
qed

section \<open>An absent or empty response\<close>

text \<open>
  Claim C1, as the code has it. When the response bytes are absent or of length zero, and
  when \<^verbatim>\<open>tarOutput\<close> itself is false, \<^verbatim>\<open>_parse\<close> returns the dictionary it has just
  created, \<^verbatim>\<open>{}\<close>: it has none of the keys \<^verbatim>\<open>content\<close>, \<^verbatim>\<open>metadata\<close>, \<^verbatim>\<open>attachments\<close>. No
  archive is opened: the trace is empty, whatever the library would do. Every dictionary
  returned for a response that is not empty has exactly the three keys.
\<close>

theorem parse_empty_response:
  "parse lib None = (Inr Map.empty, [])
   \<and> parse lib (Some (status, None)) = (Inr Map.empty, [])
   \<and> parse lib (Some (status, Some [])) = (Inr Map.empty, [])
   \<and> (\<forall>b p. b \<noteq> [] \<and> fst (parse lib (Some (status, Some b))) = Inr p \<longrightarrow>
        (\<exists>c md att. p = Map.empty(''content'' \<mapsto> Content c, ''metadata'' \<mapsto> Metadata md,
                                  ''attachments'' \<mapsto> Attachments att)))"
proof (intro conjI allI impI)
  fix b p
  assume "b \<noteq> [] \<and> fst (parse lib (Some (status, Some b))) = Inr p"
  then have "b \<noteq> []" and "fst (parse lib (Some (status, Some b))) = Inr p" by simp_all
  then show "\<exists>c md att. p = Map.empty(''content'' \<mapsto> Content c, ''metadata'' \<mapsto> Metadata md,
                                  ''attachments'' \<mapsto> Attachments att)"
    by (rule parse_returns) blast
qed (simp_all add: parse_def done_with_def)

theorem parse_empty_response_witness:
  "parse (demo_lib hello_archive) None = (Inr Map.empty, [])
   \<and> parse (demo_lib hello_archive) (Some (200, None)) = (Inr Map.empty, [])
   \<and> parse (demo_lib hello_archive) (Some (200, Some [])) = (Inr Map.empty, [])
   \<and> tar_bytes \<noteq> []
   \<and> (\<exists>c md att. fst (parse (demo_lib hello_archive) (Some (200, Some tar_bytes)))
         = Inr (Map.empty(''content'' \<mapsto> Content c, ''metadata'' \<mapsto> Metadata md,
                          ''attachments'' \<mapsto> Attachments att)))"
proof -
  note t = parse_empty_response [of "demo_lib hello_archive" 200]
  have n: "tar_bytes \<noteq> []" by (simp add: tar_bytes_def bytes_of_def)
  obtain p where p: "fst (parse (demo_lib hello_archive) (Some (200, Some tar_bytes))) = Inr p"
    by (simp add: hello_run)
  with t n have "\<exists>c md att. p = Map.empty(''content'' \<mapsto> Content c, ''metadata'' \<mapsto> Metadata md,
                          ''attachments'' \<mapsto> Attachments att)"
    by blast
  with t n p show ?thesis by simp
qed

text \<open>
  The claim as the specification states it asks for the three keys with their defaults in
  the result for an empty response. The result is the empty dictionary.
\<close>

theorem parse_empty_fields_counterexample:
  "fst (parse (demo_lib hello_archive) (Some (200, Some []))) = Inr Map.empty
   \<and> projr (fst (parse (demo_lib hello_archive) (Some (200, Some [])))) ''content''
        \<noteq> Some (Content [])
   \<and> projr (fst (parse (demo_lib hello_archive) (Some (200, Some [])))) ''metadata''
        \<noteq> Some (Metadata Map.empty)
   \<and> projr (fst (parse (demo_lib hello_archive) (Some (200, Some [])))) ''attachments''
        \<noteq> Some (Attachments Map.empty)"
  by (simp add: parse_def done_with_def)

section \<open>The status code\<close>

text \<open>
  Claim C9. The result does not depend on the HTTP status: for every two status values
  and every body, \<^verbatim>\<open>_parse((s1, b)) == _parse((s2, b))\<close>, the trace included. A status that
  is no success is no error here: a body that is not empty is decoded as after a success.
\<close>

theorem parse_ignores_status: "parse lib (Some (s1, body)) = parse lib (Some (s2, body))"
  by (simp add: parse_def)

theorem parse_ignores_status_witness:
  "parse (demo_lib hello_archive) (Some (200, Some tar_bytes))
     = parse (demo_lib hello_archive) (Some (500, Some tar_bytes))
   \<and> fst (parse (demo_lib hello_archive) (Some (500, Some tar_bytes)))
     = Inr (Map.empty(''content'' \<mapsto> Content (py ''hello world''),
                      ''metadata'' \<mapsto> Metadata Map.empty,
                      ''attachments'' \<mapsto> Attachments Map.empty))"
proof
  show e: "parse (demo_lib hello_archive) (Some (200, Some tar_bytes))
     = parse (demo_lib hello_archive) (Some (500, Some tar_bytes))"
    by (rule parse_ignores_status)
  show "fst (parse (demo_lib hello_archive) (Some (500, Some tar_bytes)))
     = Inr (Map.empty(''content'' \<mapsto> Content (py ''hello world''),
                      ''metadata'' \<mapsto> Metadata Map.empty,
                      ''attachments'' \<mapsto> Attachments Map.empty))"
    by (simp only: e [symmetric] hello_run fst_conv)
qed

section \<open>Symbolic links\<close>

text \<open>
  Claim C5. When the member that the name \<^verbatim>\<open>__TEXT__\<close> resolves to is a symbolic link,
  the decoder does not read it and \<^verbatim>\<open>content\<close> stays the empty text; when the member
  that \<^verbatim>\<open>__METADATA__\<close> resolves to is a symbolic link, \<^verbatim>\<open>metadata\<close> stays the empty
  dictionary. No call, returning or raising, extracts the content of a symbolic link,
  whatever its name: every extraction in the trace is of a regular file. The member
  named \<open>n\<close> is the one \<^verbatim>\<open>getmember(n)\<close> returns, which is how the module finds it.
\<close>

theorem symlink_never_read:
  "(\<forall>x. TarExtract x \<in> set (snd (parse lib tarOutput)) \<longrightarrow> \<not> issym x \<and> isfile x)
   \<and> (b \<noteq> [] \<and> tarfile_open lib b = Inr tf \<and> fst (parse lib (Some (status, Some b))) = Inr p \<longrightarrow>
        (getmember lib tf (py ''__TEXT__'') = Inr m \<and> issym m \<longrightarrow> p ''content'' = Some (Content []))
      \<and> (getmember lib tf (py ''__METADATA__'') = Inr m' \<and> issym m'
           \<longrightarrow> p ''metadata'' = Some (Metadata Map.empty)))"
proof -
  have trace: "\<not> issym x \<and> isfile x" if x: "TarExtract x \<in> set (snd (parse lib tarOutput))" for x
  proof (cases rule: parse_trace_cases [of lib tarOutput])
    case 1
    with x show ?thesis by simp
  next
    case (2 evs)
    with x have "TarExtract x \<in> set evs" by simp
    with 2(2) have "extracts_regular (TarExtract x)"
      unfolding list_all_iff by (rule bspec)
    then show ?thesis by simp
  qed
  have content_empty: "p ''content'' = Some (Content [])"
    if "b \<noteq> []" and o: "tarfile_open lib b = Inr tf"
      and "fst (parse lib (Some (status, Some b))) = Inr p"
      and s: "getmember lib tf (py ''__TEXT__'') = Inr m" "issym m"
    using that(1,3)
  proof (rule parse_returns)
    fix tf' names md c att
    assume "tarfile_open lib b = Inr tf'"
      and c: "fst (extract_content lib tf' (remove1 (py ''__METADATA__'') names))
         = Inr (c, remove1 (py ''__TEXT__'') (remove1 (py ''__METADATA__'') names))"
      and p: "p = Map.empty(''content'' \<mapsto> Content c, ''metadata'' \<mapsto> Metadata md,
                   ''attachments'' \<mapsto> Attachments att)"
    with o have "tf' = tf" by simp
    with c s have "c = []"
      by (auto simp: fst_extract_content split: if_splits)
    with p show ?thesis by simp
  qed
  have metadata_empty: "p ''metadata'' = Some (Metadata Map.empty)"
    if "b \<noteq> []" and o: "tarfile_open lib b = Inr tf"
      and "fst (parse lib (Some (status, Some b))) = Inr p"
      and s: "getmember lib tf (py ''__METADATA__'') = Inr m'" "issym m'"
    using that(1,3)
  proof (rule parse_returns)
    fix tf' names md c att
    assume "tarfile_open lib b = Inr tf'"
      and c: "fst (extract_metadata lib tf' names) = Inr (md, remove1 (py ''__METADATA__'') names)"
      and p: "p = Map.empty(''content'' \<mapsto> Content c, ''metadata'' \<mapsto> Metadata md,
                   ''attachments'' \<mapsto> Attachments att)"
    with o have "tf' = tf" by simp
    with c s have "md = Map.empty"
      by (auto simp: fst_extract_metadata split: if_splits)
    with p show ?thesis by simp
  qed
  from trace content_empty metadata_empty show ?thesis by blast
qed

theorem symlink_never_read_witness:
  "getmember (demo_lib symlink_archive) symlink_archive (py ''__TEXT__'') = Inr (symlink ''__TEXT__'')
   \<and> issym (symlink ''__TEXT__'')
   \<and> getmember (demo_lib symlink_archive) symlink_archive (py ''__METADATA__'')
       = Inr (symlink ''__METADATA__'')
   \<and> issym (symlink ''__METADATA__'')
   \<and> projr (fst (parse (demo_lib symlink_archive) (Some (200, Some tar_bytes)))) ''content''
       = Some (Content [])
   \<and> projr (fst (parse (demo_lib symlink_archive) (Some (200, Some tar_bytes)))) ''metadata''
       = Some (Metadata Map.empty)
   \<and> snd (parse (demo_lib symlink_archive) (Some (200, Some tar_bytes)))
       = [TarOpen, TarExtract (regular ''a.txt'')]
   \<and> \<not> issym (regular ''a.txt'')"
proof -
  let ?p = "projr (fst (parse (demo_lib symlink_archive) (Some (200, Some tar_bytes))))"
  have n: "tar_bytes \<noteq> []" by (simp add: tar_bytes_def bytes_of_def)
  have r: "fst (parse (demo_lib symlink_archive) (Some (200, Some tar_bytes))) = Inr ?p"
    by (simp add: symlink_run)
  have g: "getmember (demo_lib symlink_archive) symlink_archive (py ''__TEXT__'')
             = Inr (symlink ''__TEXT__'')"
       "getmember (demo_lib symlink_archive) symlink_archive (py ''__METADATA__'')
             = Inr (symlink ''__METADATA__'')"
    by (simp_all add: demo_members demo_getmember_def symlink_archive_def symlink_def
        regular_def py_def)
  have s: "issym (symlink ''__TEXT__'')" "issym (symlink ''__METADATA__'')"
    by (simp_all add: issym_def symlink_def)
  note t = symlink_never_read [of "demo_lib symlink_archive" "Some (200, Some tar_bytes)"
      tar_bytes symlink_archive 200 ?p "symlink ''__TEXT__''" "symlink ''__METADATA__''"]
  from t n r g s have "?p ''content'' = Some (Content [])"
    and "?p ''metadata'' = Some (Metadata Map.empty)"
    and "\<not> issym (regular ''a.txt'')"
    by (simp_all add: demo_members symlink_run)
  with g s show ?thesis by (simp add: symlink_run)
qed

section \<open>Attachments\<close>

text \<open>
  Claim C6. Take the member names that remain after \<^verbatim>\<open>__METADATA__\<close> and \<^verbatim>\<open>__TEXT__\<close> were
  taken off the list. In the result, each of them that refers to a regular file has the
  bytes of that file, as \<^verbatim>\<open>read()\<close> returned them, under its name in \<^verbatim>\<open>attachments\<close>; each
  that refers to a directory, a symbolic link or another entry is absent from
  \<^verbatim>\<open>attachments\<close>, and so is every other name. Such an entry is no error: when the two
  parts before have returned, \<^verbatim>\<open>_parse\<close> returns as soon as every remaining name
  resolves and every regular file among them can be read.
\<close>

theorem attachments_of_remaining_members:
  assumes "b \<noteq> []" and "tarfile_open lib b = Inr tf" and "getnames lib tf = Inr names"
  shows "(fst (parse lib (Some (status, Some b))) = Inr p \<longrightarrow>
           (\<exists>att. p ''attachments'' = Some (Attachments att)
              \<and> (\<forall>n\<in>set (remove1 (py ''__TEXT__'') (remove1 (py ''__METADATA__'') names)).
                    \<exists>m. getmember lib tf n = Inr m
                      \<and> (if \<not> issym m \<and> isfile m
                         then \<exists>d. extractfile_read lib tf m = Inr d \<and> att n = Some d
                         else att n = None))
              \<and> (\<forall>n. n \<notin> set (remove1 (py ''__TEXT__'') (remove1 (py ''__METADATA__'') names))
                    \<longrightarrow> att n = None)))
       \<and> (fst (extract_metadata lib tf names) = Inr (md, names1)
            \<and> fst (extract_content lib tf names1) = Inr (c, names2)
            \<and> (\<forall>n\<in>set names2. \<exists>m. getmember lib tf n = Inr m
                  \<and> (\<not> issym m \<and> isfile m \<longrightarrow> (\<exists>d. extractfile_read lib tf m = Inr d)))
            \<longrightarrow> (\<exists>q. fst (parse lib (Some (status, Some b))) = Inr q))"
proof (rule conjI)
  show "fst (parse lib (Some (status, Some b))) = Inr p \<longrightarrow>
           (\<exists>att. p ''attachments'' = Some (Attachments att)
              \<and> (\<forall>n\<in>set (remove1 (py ''__TEXT__'') (remove1 (py ''__METADATA__'') names)).
                    \<exists>m. getmember lib tf n = Inr m
                      \<and> (if \<not> issym m \<and> isfile m
                         then \<exists>d. extractfile_read lib tf m = Inr d \<and> att n = Some d
                         else att n = None))
              \<and> (\<forall>n. n \<notin> set (remove1 (py ''__TEXT__'') (remove1 (py ''__METADATA__'') names))
                    \<longrightarrow> att n = None))"
  proof
    assume "fst (parse lib (Some (status, Some b))) = Inr p"
    with assms(1) show "\<exists>att. p ''attachments'' = Some (Attachments att)
              \<and> (\<forall>n\<in>set (remove1 (py ''__TEXT__'') (remove1 (py ''__METADATA__'') names)).
                    \<exists>m. getmember lib tf n = Inr m
                      \<and> (if \<not> issym m \<and> isfile m
                         then \<exists>d. extractfile_read lib tf m = Inr d \<and> att n = Some d
                         else att n = None))
              \<and> (\<forall>n. n \<notin> set (remove1 (py ''__TEXT__'') (remove1 (py ''__METADATA__'') names))
                    \<longrightarrow> att n = None)"
    proof (rule parse_returns)
      fix tf' names' md' c' att
      assume o: "tarfile_open lib b = Inr tf'" and g: "getnames lib tf' = Inr names'"
        and l: "fst (attachments_loop lib tf'
            (remove1 (py ''__TEXT__'') (remove1 (py ''__METADATA__'') names')) Map.empty) = Inr att"
        and p: "p = Map.empty(''content'' \<mapsto> Content c', ''metadata'' \<mapsto> Metadata md',
                   ''attachments'' \<mapsto> Attachments att)"
      from o assms(2) have tf: "tf' = tf" by simp
      with g assms(3) have n: "names' = names" by simp
      note l' = l [unfolded tf n]
      have "\<exists>m. getmember lib tf n = Inr m
                      \<and> (if \<not> issym m \<and> isfile m
                         then \<exists>d. extractfile_read lib tf m = Inr d \<and> att n = Some d
                         else att n = None)"
        if "n \<in> set (remove1 (py ''__TEXT__'') (remove1 (py ''__METADATA__'') names))" for n
        using attachments_loop_member [OF l' that] by simp
      moreover have "att n = None"
        if "n \<notin> set (remove1 (py ''__TEXT__'') (remove1 (py ''__METADATA__'') names))" for n
        using attachments_loop_other [OF l' that] by simp
      moreover from p have "p ''attachments'' = Some (Attachments att)" by simp
      ultimately show ?thesis by blast
    qed
  qed
next
  show "fst (extract_metadata lib tf names) = Inr (md, names1)
            \<and> fst (extract_content lib tf names1) = Inr (c, names2)
            \<and> (\<forall>n\<in>set names2. \<exists>m. getmember lib tf n = Inr m
                  \<and> (\<not> issym m \<and> isfile m \<longrightarrow> (\<exists>d. extractfile_read lib tf m = Inr d)))
            \<longrightarrow> (\<exists>q. fst (parse lib (Some (status, Some b))) = Inr q)"
  proof
    assume h: "fst (extract_metadata lib tf names) = Inr (md, names1)
            \<and> fst (extract_content lib tf names1) = Inr (c, names2)
            \<and> (\<forall>n\<in>set names2. \<exists>m. getmember lib tf n = Inr m
                  \<and> (\<not> issym m \<and> isfile m \<longrightarrow> (\<exists>d. extractfile_read lib tf m = Inr d)))"
    then have "\<forall>n\<in>set names2. \<exists>m. getmember lib tf n = Inr m
                  \<and> (\<not> issym m \<and> isfile m \<longrightarrow> (\<exists>d. extractfile_read lib tf m = Inr d))"
      by simp
    from attachments_loop_total [OF this, of Map.empty] obtain att
      where "fst (attachments_loop lib tf names2 Map.empty) = Inr att" ..
    with h assms show "\<exists>q. fst (parse lib (Some (status, Some b))) = Inr q"
      by (simp add: fst_parse)
  qed
qed

theorem attachments_of_remaining_members_witness:
  "getnames (demo_lib attachment_archive) attachment_archive
     = Inr [py ''__TEXT__'', py ''image.png'', py ''dir'', py ''link'']
   \<and> (\<exists>att. projr (fst (parse (demo_lib attachment_archive) (Some (200, Some tar_bytes))))
                 ''attachments'' = Some (Attachments att)
          \<and> att (py ''image.png'') = Some [0x89, 0x50, 0x00, 0xFF]
          \<and> att (py ''dir'') = None \<and> att (py ''link'') = None
          \<and> att (py ''__TEXT__'') = None)
   \<and> fst (extract_content (demo_lib attachment_archive) attachment_archive
            [py ''__TEXT__'', py ''image.png'', py ''dir'', py ''link''])
       = Inr (py ''hi'', [py ''image.png'', py ''dir'', py ''link''])
   \<and> (\<exists>q. fst (parse (demo_lib attachment_archive) (Some (200, Some tar_bytes))) = Inr q)"
proof -
  let ?lib = "demo_lib attachment_archive"
  let ?p = "projr (fst (parse ?lib (Some (200, Some tar_bytes))))"
  let ?names = "[py ''__TEXT__'', py ''image.png'', py ''dir'', py ''link'']"
  let ?rest = "[py ''image.png'', py ''dir'', py ''link'']"
  have n: "tar_bytes \<noteq> []" by (simp add: tar_bytes_def bytes_of_def)
  have o: "tarfile_open ?lib tar_bytes = Inr attachment_archive" by (simp add: demo_members)
  have g: "getnames ?lib attachment_archive = Inr ?names"
    by (simp add: demo_members attachment_archive_def regular_def directory_def symlink_def)
  have r: "fst (parse ?lib (Some (200, Some tar_bytes))) = Inr ?p"
    by (simp add: attachment_run)
  have rem: "remove1 (py ''__TEXT__'') (remove1 (py ''__METADATA__'') ?names) = ?rest"
    by (simp add: py_def)
  have em: "fst (extract_metadata ?lib attachment_archive ?names) = Inr (Map.empty, ?names)"
    by (simp add: fst_extract_metadata py_def)
  have ec: "fst (extract_content ?lib attachment_archive ?names) = Inr (py ''hi'', ?rest)"
    by (simp add: run_parse attachment_archive_def)
  have ms: "\<forall>n\<in>set ?rest. \<exists>m. getmember ?lib attachment_archive n = Inr m
              \<and> (\<not> issym m \<and> isfile m
                   \<longrightarrow> (\<exists>d. extractfile_read ?lib attachment_archive m = Inr d))"
    by (simp add: demo_members demo_getmember_def demo_read_def attachment_archive_def
        regular_def directory_def symlink_def py_def issym_def isfile_def)
  note t = attachments_of_remaining_members [OF n o g, of 200 ?p Map.empty ?names "py ''hi''" ?rest]
  from t r obtain att where a: "?p ''attachments'' = Some (Attachments att)"
    and m: "\<forall>n\<in>set ?rest.
              \<exists>m. getmember ?lib attachment_archive n = Inr m
                \<and> (if \<not> issym m \<and> isfile m
                   then \<exists>d. extractfile_read ?lib attachment_archive m = Inr d \<and> att n = Some d
                   else att n = None)"
    and x: "\<forall>n. n \<notin> set ?rest \<longrightarrow> att n = None"
    unfolding rem by blast
  from m have "att (py ''image.png'') = Some [0x89, 0x50, 0x00, 0xFF]"
    and "att (py ''dir'') = None" and "att (py ''link'') = None"
    by (simp_all add: demo_members demo_getmember_def demo_read_def attachment_archive_def
        regular_def directory_def symlink_def py_def issym_def isfile_def)
  moreover from x have "att (py ''__TEXT__'') = None" by (simp add: py_def)
  moreover from t em ec ms
  have "\<exists>q. fst (parse ?lib (Some (200, Some tar_bytes))) = Inr q" by blast
  ultimately show ?thesis using a g ec by blast
qed

section \<open>Special names on entries that are not regular files\<close>

text \<open>
  Claim C10. When the archive has a member named \<^verbatim>\<open>__METADATA__\<close> or \<^verbatim>\<open>__TEXT__\<close> that is a
  symbolic link or another entry that is no regular file, the name is taken off the
  working list before the type of the member is tested: the part returns the list
  without the name. The entry is dropped: it gives no metadata and no content, and its
  name is no key of \<^verbatim>\<open>attachments\<close>. Here \<open>X\<close> is one of the two names and \<open>m\<close> the member
  it resolves to.
\<close>

theorem special_member_dropped:
  assumes "b \<noteq> []" and "tarfile_open lib b = Inr tf" and "getnames lib tf = Inr names"
    and "fst (parse lib (Some (status, Some b))) = Inr p"
    and "X = py ''__METADATA__'' \<or> X = py ''__TEXT__''"
    and "X \<in> set names"
    and "getmember lib tf X = Inr m" and "issym m \<or> \<not> isfile m"
  shows "\<exists>c md att.
           p = Map.empty(''content'' \<mapsto> Content c, ''metadata'' \<mapsto> Metadata md,
                         ''attachments'' \<mapsto> Attachments att)
         \<and> (X = py ''__METADATA__'' \<longrightarrow> md = Map.empty)
         \<and> (X = py ''__TEXT__'' \<longrightarrow> c = [])
         \<and> att X = None
         \<and> fst (extract_metadata lib tf names) = Inr (md, remove1 (py ''__METADATA__'') names)
         \<and> fst (extract_content lib tf (remove1 (py ''__METADATA__'') names))
             = Inr (c, remove1 (py ''__TEXT__'') (remove1 (py ''__METADATA__'') names))"
  using assms(1,4)
proof (rule parse_returns)
  fix tf' names' md c att
  assume o: "tarfile_open lib b = Inr tf'" and g: "getnames lib tf' = Inr names'"
    and em: "fst (extract_metadata lib tf' names') = Inr (md, remove1 (py ''__METADATA__'') names')"
    and ec: "fst (extract_content lib tf' (remove1 (py ''__METADATA__'') names'))
       = Inr (c, remove1 (py ''__TEXT__'') (remove1 (py ''__METADATA__'') names'))"
    and l: "fst (attachments_loop lib tf'
            (remove1 (py ''__TEXT__'') (remove1 (py ''__METADATA__'') names')) Map.empty) = Inr att"
    and p: "p = Map.empty(''content'' \<mapsto> Content c, ''metadata'' \<mapsto> Metadata md,
                   ''attachments'' \<mapsto> Attachments att)"
  from o assms(2) have tf: "tf' = tf" by simp
  with g assms(3) have n: "names' = names" by simp
  note em' = em [unfolded tf n] and ec' = ec [unfolded tf n] and l' = l [unfolded tf n]
  have neq: "py ''__METADATA__'' \<noteq> py ''__TEXT__''" by (simp add: py_def)
  have md: "md = Map.empty" if "X = py ''__METADATA__''"
    using em' assms(6,7,8) that by (auto simp: fst_extract_metadata)
  have c: "c = []" if x: "X = py ''__TEXT__''"
  proof -
    from assms(6) x neq have "py ''__TEXT__'' \<in> set (remove1 (py ''__METADATA__'') names)"
      by simp
    with ec' assms(7,8) x show ?thesis by (auto simp: fst_extract_content)
  qed
  have att: "att X = None"
  proof (cases "X \<in> set (remove1 (py ''__TEXT__'') (remove1 (py ''__METADATA__'') names))")
    case True
    from attachments_loop_member [OF l' True] assms(7,8) show ?thesis by auto
  next
    case False
    from attachments_loop_other [OF l' False] show ?thesis by simp
  qed
  from p md c att em' ec' show ?thesis by blast
qed

theorem special_member_dropped_witness:
  "py ''__TEXT__'' \<in> set [py ''__TEXT__'', py ''__METADATA__'', py ''a.txt'']
   \<and> getnames (demo_lib symlink_archive) symlink_archive
       = Inr [py ''__TEXT__'', py ''__METADATA__'', py ''a.txt'']
   \<and> getmember (demo_lib symlink_archive) symlink_archive (py ''__TEXT__'')
       = Inr (symlink ''__TEXT__'')
   \<and> issym (symlink ''__TEXT__'')
   \<and> (\<exists>md att. fst (parse (demo_lib symlink_archive) (Some (200, Some tar_bytes)))
          = Inr (Map.empty(''content'' \<mapsto> Content [], ''metadata'' \<mapsto> Metadata md,
                           ''attachments'' \<mapsto> Attachments att))
        \<and> att (py ''__TEXT__'') = None
        \<and> fst (extract_content (demo_lib symlink_archive) symlink_archive
                 [py ''__TEXT__'', py ''a.txt''])
            = Inr ([], [py ''a.txt'']))"
proof -
  let ?lib = "demo_lib symlink_archive"
  let ?p = "projr (fst (parse ?lib (Some (200, Some tar_bytes))))"
  let ?names = "[py ''__TEXT__'', py ''__METADATA__'', py ''a.txt'']"
  have n: "tar_bytes \<noteq> []" by (simp add: tar_bytes_def bytes_of_def)
  have o: "tarfile_open ?lib tar_bytes = Inr symlink_archive" by (simp add: demo_members)
  have g: "getnames ?lib symlink_archive = Inr ?names"
    by (simp add: demo_members symlink_archive_def regular_def symlink_def)
  have r: "fst (parse ?lib (Some (200, Some tar_bytes))) = Inr ?p"
    by (simp add: symlink_run)
  have x: "py ''__TEXT__'' = py ''__METADATA__'' \<or> py ''__TEXT__'' = py ''__TEXT__''" by simp
  have i: "py ''__TEXT__'' \<in> set ?names" by simp
  have gm: "getmember ?lib symlink_archive (py ''__TEXT__'') = Inr (symlink ''__TEXT__'')"
    by (simp add: demo_members demo_getmember_def symlink_archive_def symlink_def
        regular_def py_def)
  have s: "issym (symlink ''__TEXT__'') \<or> \<not> isfile (symlink ''__TEXT__'')"
    by (simp add: issym_def symlink_def)
  have rem: "remove1 (py ''__METADATA__'') ?names = [py ''__TEXT__'', py ''a.txt'']"
    "remove1 (py ''__TEXT__'') [py ''__TEXT__'', py ''a.txt''] = [py ''a.txt'']"
    by (simp_all add: py_def)
  from special_member_dropped [OF n o g r x i gm s]
  obtain c md att where "?p = Map.empty(''content'' \<mapsto> Content c, ''metadata'' \<mapsto> Metadata md,
                         ''attachments'' \<mapsto> Attachments att)"
    and "c = []" and "att (py ''__TEXT__'') = None"
    and "fst (extract_content ?lib symlink_archive [py ''__TEXT__'', py ''a.txt''])
             = Inr (c, [py ''a.txt''])"
    unfolding rem by blast
  with r i g gm s show ?thesis by (auto simp: issym_def symlink_def)
qed

section \<open>The text member\<close>

text \<open>
  What \<^verbatim>\<open>_parse\<close> does with a regular file under the name \<^verbatim>\<open>__TEXT__\<close>. Bytes that are not
  valid UTF-8 are fatal: there is no result, and the exception of the decoder is the one
  raised when the metadata part has returned. For valid bytes, \<^verbatim>\<open>content\<close> is the decoded
  text after the translation of line ends by the text wrapper.
\<close>

lemma text_content:
  assumes "b \<noteq> []" and "tarfile_open lib b = Inr tf" and "getnames lib tf = Inr names"
    and "py ''__TEXT__'' \<in> set names"
    and "getmember lib tf (py ''__TEXT__'') = Inr m" and "\<not> issym m" and "isfile m"
    and "extractfile_read lib tf m = Inr d"
  shows "utf8_decode d = Inl e \<Longrightarrow> \<exists>e'. fst (parse lib (Some (status, Some b))) = Inl e'"
    and "utf8_decode d = Inl e \<Longrightarrow> fst (extract_metadata lib tf names) = Inr (md, names1)
           \<Longrightarrow> fst (parse lib (Some (status, Some b))) = Inl e"
    and "utf8_decode d = Inr s \<Longrightarrow> fst (parse lib (Some (status, Some b))) = Inr p
           \<Longrightarrow> p ''content'' = Some (Content (translate_newlines s))"
proof -
  have neq: "py ''__METADATA__'' \<noteq> py ''__TEXT__''" by (simp add: py_def)
  from assms(4) neq have i: "py ''__TEXT__'' \<in> set (remove1 (py ''__METADATA__'') names)"
    by simp
  have c: "fst (extract_content lib tf (remove1 (py ''__METADATA__'') names))
             = and_then (read_text d) (\<lambda>c. Inr (c, remove1 (py ''__TEXT__'')
                  (remove1 (py ''__METADATA__'') names)))"
    using assms(5-8) i by (simp add: fst_extract_content)
  {
    assume u: "utf8_decode d = Inl e"
    then have "read_text d = Inl e" by (simp add: read_text_def)
    with c have ce: "fst (extract_content lib tf (remove1 (py ''__METADATA__'') names)) = Inl e"
      by simp
    show "\<exists>e'. fst (parse lib (Some (status, Some b))) = Inl e'"
    proof (cases "fst (parse lib (Some (status, Some b)))")
      case (Inl a)
      then show ?thesis by simp
    next
      case (Inr q)
      with assms(1) show ?thesis
      proof (rule parse_returns)
        fix tf' names' md c att
        assume "tarfile_open lib b = Inr tf'" "getnames lib tf' = Inr names'"
          "fst (extract_content lib tf' (remove1 (py ''__METADATA__'') names'))
             = Inr (c, remove1 (py ''__TEXT__'') (remove1 (py ''__METADATA__'') names'))"
        with assms(2,3) ce show ?thesis by simp
      qed
    qed
    assume "fst (extract_metadata lib tf names) = Inr (md, names1)"
    moreover from this have "names1 = remove1 (py ''__METADATA__'') names"
      by (rule extract_metadata_names)
    ultimately show "fst (parse lib (Some (status, Some b))) = Inl e"
      using assms(1-3) ce by (simp add: fst_parse)
  }
  {
    assume u: "utf8_decode d = Inr s" and r: "fst (parse lib (Some (status, Some b))) = Inr p"
    from u have rt: "read_text d = Inr (translate_newlines s)" by (simp add: read_text_def)
    from assms(1) r show "p ''content'' = Some (Content (translate_newlines s))"
    proof (rule parse_returns)
      fix tf' names' md c att
      assume "tarfile_open lib b = Inr tf'" "getnames lib tf' = Inr names'"
        "fst (extract_content lib tf' (remove1 (py ''__METADATA__'') names'))
             = Inr (c, remove1 (py ''__TEXT__'') (remove1 (py ''__METADATA__'') names'))"
        and p: "p = Map.empty(''content'' \<mapsto> Content c, ''metadata'' \<mapsto> Metadata md,
                   ''attachments'' \<mapsto> Attachments att)"
      with assms(2,3) c rt have "c = translate_newlines s" by simp
      with p show ?thesis by simp
    qed
  }
qed

text \<open>
  Claim C7 says that \<^verbatim>\<open>content\<close> equals the UTF-8 decoding of the bytes. At the bytes
  \<^verbatim>\<open>61 0D 0A 62\<close> the branch of Python 3 returns \<^verbatim>\<open>a\nb\<close>, three characters, where the
  decoding has four, \<^verbatim>\<open>a\r\nb\<close>; the branch of Python 2 returns the decoding.
\<close>

theorem text_crlf_translated:
  "fst (parse (demo_lib crlf_archive) (Some (200, Some tar_bytes)))
     = Inr (Map.empty(''content'' \<mapsto> Content [0x61, 0x0A, 0x62],
                      ''metadata'' \<mapsto> Metadata Map.empty,
                      ''attachments'' \<mapsto> Attachments Map.empty))
   \<and> utf8_decode [0x61, 0x0D, 0x0A, 0x62] = Inr [0x61, 0x0D, 0x0A, 0x62]
   \<and> read_text_py2 [0x61, 0x0D, 0x0A, 0x62] = Inr [0x61, 0x0D, 0x0A, 0x62]"
  by (simp add: crlf_run read_text_py2_def utf8_decode_def emit_def)

section \<open>The archive reader is never closed\<close>

text \<open>When a call opens the archive.\<close>

lemma parse_opens:
  "TarOpen \<in> set (snd (parse lib tarOutput)) \<longleftrightarrow>
     (\<exists>status b tf. tarOutput = Some (status, Some b) \<and> b \<noteq> [] \<and> tarfile_open lib b = Inr tf)"
proof (cases tarOutput)
  case None
  then show ?thesis by (simp add: parse_def)
next
  case (Some a)
  obtain st body where a: "a = (st, body)" by (cases a)
  show ?thesis
  proof (cases body)
    case None
    with Some a show ?thesis by (simp add: parse_def)
  next
    case b: (Some b)
    show ?thesis
    proof (cases "b = []")
      case True
      with b Some a show ?thesis by (simp add: parse_def)
    next
      case False
      show ?thesis
      proof (cases "tarfile_open lib b")
        case (Inl e)
        with False b Some a show ?thesis
          by (simp add: parse_def snd_bind_traced)
      next
        case (Inr tf)
        with False b Some a show ?thesis
          by (simp add: parse_def snd_bind_traced split: sum.splits)
      qed
    qed
  qed
qed

text \<open>
  Claim C8, as the code has it. A call opens at most one archive reader: one when the
  response is not empty and \<^verbatim>\<open>tarfile.open\<close> returns, none otherwise. No call closes it,
  whether it returns or raises: after a call that opened the reader, the reader is still
  open. Nothing but the garbage collection of the interpreter releases it.
\<close>

theorem reader_never_closed:
  "TarClose \<notin> set (snd (parse lib tarOutput))
   \<and> count_list (snd (parse lib tarOutput)) TarOpen \<le> 1
   \<and> open_readers (snd (parse lib tarOutput))
       = (if TarOpen \<in> set (snd (parse lib tarOutput)) then 1 else 0)
   \<and> (TarOpen \<in> set (snd (parse lib tarOutput)) \<longleftrightarrow>
        (\<exists>status b tf. tarOutput = Some (status, Some b) \<and> b \<noteq> []
            \<and> tarfile_open lib b = Inr tf))"
proof (cases rule: parse_trace_cases [of lib tarOutput])
  case 1
  with parse_opens [of lib tarOutput] show ?thesis by (simp add: open_readers_def)
next
  case (2 evs)
  with extracts_regular_count [OF 2(2)] parse_opens [of lib tarOutput] show ?thesis
    by (simp add: open_readers_def)
qed

theorem reader_never_closed_witness:
  "TarOpen \<in> set (snd (parse (demo_lib hello_archive) (Some (200, Some tar_bytes))))
   \<and> TarClose \<notin> set (snd (parse (demo_lib hello_archive) (Some (200, Some tar_bytes))))
   \<and> open_readers (snd (parse (demo_lib hello_archive) (Some (200, Some tar_bytes)))) = 1
   \<and> open_readers (snd (parse (demo_lib hello_archive) (Some (200, Some [])))) = 0"
proof -
  have o: "TarOpen \<in> set (snd (parse (demo_lib hello_archive) (Some (200, Some tar_bytes))))"
    by (simp add: hello_run)
  have e: "TarOpen \<notin> set (snd (parse (demo_lib hello_archive) (Some (200, Some []))))"
    by (simp add: parse_def done_with_def)
  from o e reader_never_closed [of "demo_lib hello_archive" "Some (200, Some tar_bytes)"]
    reader_never_closed [of "demo_lib hello_archive" "Some (200, Some [])"]
  show ?thesis by simp
qed

text \<open>
  The claim as the specification states it asks that no reader is open at the end of a
  call. After a call that returns, and after one that raises on a malformed row, one is.
\<close>

theorem reader_left_open_counterexample:
  "TarOpen \<in> set (snd (parse (demo_lib hello_archive) (Some (200, Some tar_bytes))))
   \<and> open_readers (snd (parse (demo_lib hello_archive) (Some (200, Some tar_bytes)))) \<noteq> 0
   \<and> fst (parse (demo_lib short_row_archive) (Some (200, Some tar_bytes))) = Inl AssertionError
   \<and> TarOpen \<in> set (snd (parse (demo_lib short_row_archive) (Some (200, Some tar_bytes))))
   \<and> open_readers (snd (parse (demo_lib short_row_archive) (Some (200, Some tar_bytes)))) \<noteq> 0"
  by (simp add: hello_run short_run open_readers_def)

end
